theory Spec2Isabelle
  imports
    Complex_Main
    "HOL-Library.List_Lexorder"
    "HOL-Library.Char_ord"
    "HOL-Library.AList"
begin

section \<open>Data model\<close>

text \<open>
  The program is a Streamlit script (\<^verbatim>\<open>app.py\<close>) that submits an image to a SageMaker
  asynchronous inference endpoint, polls S3 for the result, writes the returned frames
  to \<^verbatim>\<open>frames_out/\<close> and runs ffmpeg over them.

  Python \<^verbatim>\<open>str\<close> and \<^verbatim>\<open>bytes\<close> values are lists of 8-bit characters; on such strings
  \<^verbatim>\<open>bytes(s, encoding="raw_unicode_escape")\<close> is the identity.  A number is a Python
  \<^verbatim>\<open>int\<close> or a finite \<^verbatim>\<open>float\<close>; a float is represented by the real number it denotes
  (the program only stores, copies and compares numbers).
\<close>

type_synonym bytes = string

datatype number = IntNum int | FloatNum real

fun num_val :: "number \<Rightarrow> real" where
  "num_val (IntNum i) = of_int i"
| "num_val (FloatNum r) = r"

definition num_le :: "number \<Rightarrow> number \<Rightarrow> bool" where
  "num_le a b = (num_val a \<le> num_val b)"

text \<open>Values held in \<^verbatim>\<open>st.session_state\<close> and in JSON documents.\<close>

datatype pyval =
    PNone
  | PBool bool
  | PNum number
  | PStr string
  | PList "pyval list"
  | PDict "(string \<times> pyval) list"

text \<open>
  Exceptions.  \<open>ClientError code\<close> is botocore's \<^verbatim>\<open>ClientError\<close> with
  \<^verbatim>\<open>e.response["Error"]["Code"] == code\<close>; \<open>OtherError\<close> is any other exception raised
  inside a library call.
\<close>

datatype error =
    ClientError string
  | KeyError string
  | TypeError
  | OtherError string

datatype 'a outcome = Returns 'a | Raises error

text \<open>
  The file object returned by \<^verbatim>\<open>st.file_uploader\<close> (its \<^verbatim>\<open>name\<close> and \<^verbatim>\<open>size\<close>), and a PIL
  image (its \<^verbatim>\<open>size\<close>); what they hold is known to the environment only.
\<close>

record upload =
  up_name :: string
  up_size :: nat

record image =
  img_width :: int
  img_height :: int

text \<open>Observable actions, in the order the script performs them.\<close>

datatype event =
    StError string
  | StSuccess string
  | StWarning string
  | StVideo bytes
  | Print string
  | Sleep nat
  | S3UploadFile string string string
  | InvokeEndpointAsync string string nat
  | S3GetObject string string
  | S3DownloadFile string string string
  | FfmpegRun "string list" pyval string

text \<open>
  The local file system is an association list from paths to contents; \<open>AList.update\<close>
  overwrites an existing path in place and appends a new one, as opening a file for
  writing does.  Local writes are taken to succeed (the output directories exist).
\<close>

type_synonym filesystem = "(string \<times> bytes) list"

record world =
  w_session :: "string \<rightharpoonup> pyval"
  w_files :: filesystem
  w_log :: "event list"

text \<open>
  The library and service calls the script makes.  Each field stands for the call named
  beside it; the S3 calls of the polling loop are indexed by the number of the attempt
  (from 0), so that an environment is a store stub that answers the n-th fetch.
\<close>

record env =
  image_open :: "upload option \<Rightarrow> image outcome"
    \<comment> \<open>\<^verbatim>\<open>Image.open(upload)\<close>\<close>
  splitext_root :: "string \<Rightarrow> string"
    \<comment> \<open>\<^verbatim>\<open>os.path.splitext(name)[0]\<close>\<close>
  py_str :: "pyval \<Rightarrow> string"
    \<comment> \<open>formatting a value inside an f-string\<close>
  jpeg_b64encode :: "image \<Rightarrow> string outcome"
    \<comment> \<open>\<^verbatim>\<open>image.save(buffered, format="JPEG")\<close> then \<^verbatim>\<open>base64.b64encode(...).decode("utf-8")\<close>\<close>
  json_dumps :: "pyval \<Rightarrow> bytes"
    \<comment> \<open>the text \<^verbatim>\<open>json.dump(data, f, ensure_ascii=False, indent=4)\<close> writes\<close>
  json_loads :: "bytes \<Rightarrow> pyval outcome"
    \<comment> \<open>\<^verbatim>\<open>json.load(f)\<close> on a file with these contents\<close>
  s3_upload_file :: "string \<Rightarrow> string \<Rightarrow> bytes option \<Rightarrow> unit outcome"
    \<comment> \<open>\<^verbatim>\<open>s3_client.upload_file\<close>: bucket, key, contents of the local file\<close>
  invoke_endpoint_async :: "string \<Rightarrow> string \<Rightarrow> nat \<Rightarrow> string outcome"
    \<comment> \<open>\<^verbatim>\<open>sm_runtime_client.invoke_endpoint_async(...)["OutputLocation"]\<close>\<close>
  urlparse :: "string \<Rightarrow> string \<times> string"
    \<comment> \<open>\<^verbatim>\<open>urllib.parse.urlparse\<close>: \<^verbatim>\<open>(netloc, path)\<close>\<close>
  s3_get_object :: "string \<Rightarrow> string \<Rightarrow> nat \<Rightarrow> unit outcome"
    \<comment> \<open>\<^verbatim>\<open>s3_client.get_object\<close>: bucket, key, attempt\<close>
  s3_download_file :: "string \<Rightarrow> string \<Rightarrow> nat \<Rightarrow> bytes outcome"
    \<comment> \<open>\<^verbatim>\<open>s3_client.download_file\<close>: bucket, key, attempt; returns the bytes stored locally\<close>
  b64_decodebytes :: "bytes \<Rightarrow> bytes outcome"
    \<comment> \<open>\<^verbatim>\<open>base64.decodebytes\<close>\<close>
  ffmpeg_run :: "(string \<times> bytes) list \<Rightarrow> pyval \<Rightarrow> bytes outcome"
    \<comment> \<open>the ffmpeg process: input frames in order, frame rate; returns the encoded video\<close>

section \<open>Constants\<close>

definition MAX_FILE_SIZE :: nat where
  "MAX_FILE_SIZE = 5 * 1024 * 1024"

definition S3_BUCKET :: string where
  "S3_BUCKET = ''<YOUR_S3_BUCKET_NAME>''"

definition ENDPOINT_NAME :: string where
  "ENDPOINT_NAME = ''<YOUR_SAGEMAKER_ENDPOINT_NAME>''"

definition REQUEST_PAYLOAD :: string where
  "REQUEST_PAYLOAD = ''request_payloads/payload.json''"

definition RESPONSE_PAYLOAD :: string where
  "RESPONSE_PAYLOAD = ''response_payloads/output.json''"

section \<open>Helpers for the world\<close>

definition emit :: "event \<Rightarrow> world \<Rightarrow> world" where
  "emit ev w = w\<lparr>w_log := w_log w @ [ev]\<rparr>"

definition write_file :: "string \<Rightarrow> bytes \<Rightarrow> world \<Rightarrow> world" where
  "write_file path content w = w\<lparr>w_files := AList.update path content (w_files w)\<rparr>"

definition ss_set :: "string \<Rightarrow> pyval \<Rightarrow> world \<Rightarrow> world" where
  "ss_set k v w = w\<lparr>w_session := (w_session w)(k \<mapsto> v)\<rparr>"

definition ss_get :: "world \<Rightarrow> string \<Rightarrow> pyval \<Rightarrow> pyval" where
  "ss_get w k dflt = (case w_session w k of None \<Rightarrow> dflt | Some v \<Rightarrow> v)"

section \<open>\<^verbatim>\<open>get_model_response\<close>: polling the result location\<close>

text \<open>
  One pass through the \<^verbatim>\<open>try\<close> block: \<^verbatim>\<open>get_object\<close>, then \<^verbatim>\<open>download_file\<close> to
  \<open>RESPONSE_PAYLOAD\<close>, then the message.
\<close>

definition try_fetch :: "env \<Rightarrow> string \<Rightarrow> string \<Rightarrow> nat \<Rightarrow> world \<Rightarrow> (error + unit) \<times> world" where
  "try_fetch env bucket key n w =
     (let w1 = emit (S3GetObject bucket key) w in
      case s3_get_object env bucket key n of
        Raises e \<Rightarrow> (Inl e, w1)
      | Returns _ \<Rightarrow>
          (let w2 = emit (S3DownloadFile bucket key RESPONSE_PAYLOAD) w1 in
           case s3_download_file env bucket key n of
             Raises e \<Rightarrow> (Inl e, w2)
           | Returns content \<Rightarrow>
               (Inr (), emit (Print ''Model response received.'')
                          (write_file RESPONSE_PAYLOAD content w2))))"

text \<open>
  The \<^verbatim>\<open>while True\<close> loop.  It has no bound, so it is a partial function: \<open>None\<close> is
  the run that never returns.
\<close>

partial_function (option) get_model_response_loop ::
  "env \<Rightarrow> string \<Rightarrow> string \<Rightarrow> nat \<Rightarrow> world \<Rightarrow> ((error + bool) \<times> world) option" where
  "get_model_response_loop env bucket key n w =
     (case try_fetch env bucket key n w of
        (Inr _, w') \<Rightarrow> Some (Inr True, w')
      | (Inl (ClientError code), w') \<Rightarrow>
          if code = ''NoSuchKey''
          then get_model_response_loop env bucket key (Suc n)
                 (emit (Sleep 15) (emit (Print ''Waiting for model output...'') w'))
          else Some (Inl (ClientError code), w')
      | (Inl e, w') \<Rightarrow> Some (Inl e, w'))"

declare get_model_response_loop.simps [code]

definition get_model_response :: "env \<Rightarrow> string \<Rightarrow> world \<Rightarrow> ((error + bool) \<times> world) option" where
  "get_model_response env response_location w =
     (let output_url = urlparse env response_location;
          bucket = fst output_url;
          key = drop 1 (snd output_url)
      in get_model_response_loop env bucket key 0 w)"

section \<open>\<^verbatim>\<open>save_video_frames\<close>: naming and writing the frames\<close>

text \<open>Python's \<^verbatim>\<open>str\<close> of a non-negative integer, as the f-string formats \<^verbatim>\<open>idx+1\<close>.\<close>

definition digit_char :: "nat \<Rightarrow> char" where
  "digit_char d = char_of (48 + d)"

fun str_nat :: "nat \<Rightarrow> string" where
  "str_nat n = (if n < 10 then [digit_char n] else str_nat (n div 10) @ [digit_char (n mod 10)])"

declare str_nat.simps [simp del]

text \<open>The path of the frame at position \<open>idx\<close> (from 0) of \<^verbatim>\<open>enumerate(video_frames)\<close>.\<close>

definition frame_name :: "nat \<Rightarrow> string" where
  "frame_name idx =
     (if idx < 9 then ''frames_out/frame_0'' @ str_nat (idx + 1) @ ''.jpg''
      else ''frames_out/frame_'' @ str_nat (idx + 1) @ ''.jpg'')"

text \<open>Iterating over a value, and \<^verbatim>\<open>bytes(video_frame, encoding="raw_unicode_escape")\<close>.\<close>

fun py_iter :: "pyval \<Rightarrow> error + pyval list" where
  "py_iter (PList xs) = Inr xs"
| "py_iter (PStr s) = Inr (map (\<lambda>c. PStr [c]) s)"
| "py_iter (PDict kvs) = Inr (map (\<lambda>kv. PStr (fst kv)) kvs)"
| "py_iter _ = Inl TypeError"

fun py_bytes :: "pyval \<Rightarrow> error + bytes" where
  "py_bytes (PStr s) = Inr s"
| "py_bytes _ = Inl TypeError"

text \<open>
  The loop body opens the file for writing, which creates or empties it, before
  \<^verbatim>\<open>base64.decodebytes\<close> is evaluated; when the decoding raises, the empty file stays.
\<close>

fun save_frames_loop ::
  "(bytes \<Rightarrow> bytes outcome) \<Rightarrow> nat \<Rightarrow> pyval list \<Rightarrow> filesystem \<Rightarrow> (error + unit) \<times> filesystem" where
  "save_frames_loop dec idx [] fs = (Inr (), fs)"
| "save_frames_loop dec idx (video_frame # rest) fs =
     (case py_bytes video_frame of
        Inl e \<Rightarrow> (Inl e, fs)
      | Inr frame \<Rightarrow>
          (let fs1 = AList.update (frame_name idx) [] fs in
           case dec frame of
             Raises e \<Rightarrow> (Inl e, fs1)
           | Returns decoded \<Rightarrow>
               save_frames_loop dec (idx + 1) rest (AList.update (frame_name idx) decoded fs1)))"

definition save_video_frames :: "env \<Rightarrow> pyval \<Rightarrow> world \<Rightarrow> (error + unit) \<times> world" where
  "save_video_frames env video_frames w =
     (case py_iter video_frames of
        Inl e \<Rightarrow> (Inl e, w)
      | Inr items \<Rightarrow>
          (case save_frames_loop (b64_decodebytes env) 0 items (w_files w) of
             (r, fs) \<Rightarrow> (r, w\<lparr>w_files := fs\<rparr>)))"

section \<open>\<^verbatim>\<open>convert_frames_to_video\<close>\<close>

text \<open>
  The ffmpeg input is the glob pattern \<^verbatim>\<open>frames_out/*.jpg\<close>: the star matches a file name
  without a slash and without a leading dot, and the matches are taken in lexical order.
\<close>

definition frames_glob :: "string \<Rightarrow> bool" where
  "frames_glob path =
     (let dir = ''frames_out/''; ext = ''.jpg''; file = drop (length dir) path in
      take (length dir) path = dir \<and>
      length ext \<le> length file \<and>
      drop (length file - length ext) file = ext \<and>
      CHR ''/'' \<notin> set file \<and>
      take 1 file \<noteq> ''.'')"

definition glob_frames :: "filesystem \<Rightarrow> string list" where
  "glob_frames fs = sorted_list_of_set (set (filter frames_glob (map fst fs)))"

definition read_file :: "filesystem \<Rightarrow> string \<Rightarrow> bytes" where
  "read_file fs path = (case map_of fs path of None \<Rightarrow> [] | Some content \<Rightarrow> content)"

text \<open>What ffmpeg reads: the matching files, in that order, with their contents.\<close>

definition ffmpeg_inputs :: "filesystem \<Rightarrow> (string \<times> bytes) list" where
  "ffmpeg_inputs fs = map (\<lambda>p. (p, read_file fs p)) (glob_frames fs)"

definition convert_frames_to_video :: "env \<Rightarrow> string \<Rightarrow> world \<Rightarrow> (error + unit) \<times> world" where
  "convert_frames_to_video env video_path w =
     (case w_session w ''fps'' of
        None \<Rightarrow> (Inl (KeyError ''fps''), w)
      | Some framerate \<Rightarrow>
          (let w1 = emit (FfmpegRun (glob_frames (w_files w)) framerate video_path) w in
           case ffmpeg_run env (ffmpeg_inputs (w_files w)) framerate of
             Raises e \<Rightarrow> (Inl e, w1)
           | Returns video \<Rightarrow> (Inr (), write_file video_path video w1)))"

section \<open>\<^verbatim>\<open>invoke_model\<close>: building and submitting the request\<close>

definition upload_file :: "env \<Rightarrow> string \<Rightarrow> world \<Rightarrow> (error + unit) \<times> world" where
  "upload_file env input_location w =
     (let key = ''async_inference/input/payload.json'';
          w1 = emit (S3UploadFile input_location S3_BUCKET key) w in
      case s3_upload_file env S3_BUCKET key (map_of (w_files w) input_location) of
        Raises e \<Rightarrow> (Inl e, w1)
      | Returns _ \<Rightarrow> (Inr (), w1))"

definition encode_image :: "env \<Rightarrow> image \<Rightarrow> string outcome" where
  "encode_image env img = jpeg_b64encode env img"

text \<open>The keys \<^verbatim>\<open>invoke_model\<close> reads from the session state, in the order of the dictionary.\<close>

definition parameter_keys :: "string list" where
  "parameter_keys =
     [''width'', ''height'', ''num_frames'', ''num_inference_steps'',
      ''min_guidance_scale'', ''max_guidance_scale'', ''fps'', ''motion_bucket_id'',
      ''noise_aug_strength'', ''decode_chunk_size'', ''seed'']"

fun session_items :: "(string \<rightharpoonup> pyval) \<Rightarrow> string list \<Rightarrow> error + (string \<times> pyval) list" where
  "session_items ss [] = Inr []"
| "session_items ss (k # ks) =
     (case ss k of
        None \<Rightarrow> Inl (KeyError k)
      | Some v \<Rightarrow> (case session_items ss ks of Inl e \<Rightarrow> Inl e | Inr kvs \<Rightarrow> Inr ((k, v) # kvs)))"

definition request_data :: "env \<Rightarrow> image \<Rightarrow> world \<Rightarrow> error + (string \<times> pyval) list" where
  "request_data env img w =
     (case encode_image env img of
        Raises e \<Rightarrow> Inl e
      | Returns encoded \<Rightarrow>
          (case session_items (w_session w) parameter_keys of
             Inl e \<Rightarrow> Inl e
           | Inr kvs \<Rightarrow> Inr ((''image'', PStr encoded) # kvs)))"

definition invoke_model :: "env \<Rightarrow> upload option \<Rightarrow> world \<Rightarrow> (error + string) \<times> world" where
  "invoke_model env upload w =
     (case image_open env upload of
        Raises e \<Rightarrow> (Inl e, w)
      | Returns img \<Rightarrow>
          (case request_data env img w of
             Inl e \<Rightarrow> (Inl e, w)
           | Inr data \<Rightarrow>
               (let w1 = write_file REQUEST_PAYLOAD (json_dumps env (PDict data)) w in
                case upload_file env REQUEST_PAYLOAD w1 of
                  (Inl e, w2) \<Rightarrow> (Inl e, w2)
                | (Inr _, w2) \<Rightarrow>
                    (let input_location = ''s3://'' @ S3_BUCKET @ ''/async_inference/input/payload.json'';
                         w3 = emit (InvokeEndpointAsync ENDPOINT_NAME input_location 3600) w2 in
                     case invoke_endpoint_async env ENDPOINT_NAME input_location 3600 of
                       Raises e \<Rightarrow> (Inl e, w3)
                     | Returns output_location \<Rightarrow> (Inr output_location, w3)))))"

section \<open>\<^verbatim>\<open>main\<close>\<close>

text \<open>
  One run of the script.  The widgets' values for this run are the input: the uploaded
  file, the text typed as title, the number typed into each number input (by label;
  \<open>None\<close> leaves the widget at the \<^verbatim>\<open>value\<close> it is given), and which button was pressed.
  Calls that only draw on the page (\<^verbatim>\<open>set_page_config\<close>, \<^verbatim>\<open>markdown\<close>, \<^verbatim>\<open>display_image\<close>)
  are left out.
\<close>

record ui =
  ui_upload :: "upload option"
  ui_title :: "string option"
  ui_numbers :: "string \<rightharpoonup> number"
  ui_create_video :: bool
  ui_play_video :: bool

definition st_text_input :: "ui \<Rightarrow> pyval \<Rightarrow> pyval" where
  "st_text_input u val = (case ui_title u of None \<Rightarrow> val | Some s \<Rightarrow> PStr s)"

definition st_number_input :: "ui \<Rightarrow> string \<Rightarrow> pyval \<Rightarrow> pyval" where
  "st_number_input u label val = (case ui_numbers u label of None \<Rightarrow> val | Some n \<Rightarrow> PNum n)"

text \<open>The float \<^verbatim>\<open>0.02\<close> is the double \<open>5764607523034235 / 2 ^ 58\<close>.\<close>

definition float_0_02 :: real where
  "float_0_02 = 5764607523034235 / 2 ^ 58"

definition session_state_defaults :: "(string \<times> pyval) list" where
  "session_state_defaults =
     [(''play_video_disabled'', PBool True),
      (''invocation_time'', PNum (IntNum 0)),
      (''movie_title'', PNone),
      (''width'', PNum (IntNum 1024)),
      (''height'', PNum (IntNum 576)),
      (''num_frames'', PNum (IntNum 25)),
      (''num_inference_steps'', PNum (IntNum 25)),
      (''min_guidance_scale'', PNum (FloatNum 1)),
      (''max_guidance_scale'', PNum (FloatNum 3)),
      (''fps'', PNum (IntNum 6)),
      (''motion_bucket_id'', PNum (IntNum 127)),
      (''noise_aug_strength'', PNum (FloatNum float_0_02)),
      (''decode_chunk_size'', PNum (IntNum 8)),
      (''seed'', PNum (IntNum 42))]"

definition reset_session_states :: "world \<Rightarrow> world" where
  "reset_session_states w =
     foldl (\<lambda>w kv. if w_session w (fst kv) = None then ss_set (fst kv) (snd kv) w else w)
       w session_state_defaults"

text \<open>Lines 64 to 73: the size check and the image's title and size.\<close>

definition main_upload :: "env \<Rightarrow> ui \<Rightarrow> world \<Rightarrow> (error + unit) \<times> world" where
  "main_upload env u w =
     (case ui_upload u of
        None \<Rightarrow> (Inr (), w)
      | Some my_upload \<Rightarrow>
          if up_size my_upload > MAX_FILE_SIZE
          then (Inr (), emit (StError
                  ''The uploaded file is too large. Please upload an image smaller than 5MB.'') w)
          else
            (let w1 = ss_set ''movie_title'' (PStr (splitext_root env (up_name my_upload))) w in
             case image_open env (Some my_upload) of
               Raises e \<Rightarrow> (Inl e, w1)
             | Returns img \<Rightarrow>
                 (Inr (), ss_set ''height'' (PNum (IntNum (img_height img)))
                            (ss_set ''width'' (PNum (IntNum (img_width img))) w1))))"

text \<open>Lines 75 to 80: the title and the path of the video.\<close>

definition main_title :: "ui \<Rightarrow> world \<Rightarrow> world" where
  "main_title u w =
     ss_set ''movie_title'' (st_text_input u (ss_get w ''movie_title'' (PStr []))) w"

definition main_video_path :: "env \<Rightarrow> world \<Rightarrow> string" where
  "main_video_path env w =
     ''video_out/'' @ py_str env (ss_get w ''movie_title'' (PStr [])) @ ''.mp4''"

text \<open>Lines 82 to 133: each number input, with its label, its key and its default.\<close>

definition number_inputs :: "(string \<times> string \<times> pyval) list" where
  "number_inputs =
     [(''Width'', ''width'', PNum (IntNum 1024)),
      (''Height'', ''height'', PNum (IntNum 576)),
      (''Number of Frames'', ''num_frames'', PNum (IntNum 25)),
      (''Number of Inference Steps'', ''num_inference_steps'', PNum (IntNum 25)),
      (''Minimum Guidance Scale'', ''min_guidance_scale'', PNum (FloatNum 1)),
      (''Maximum Guidance Scale'', ''max_guidance_scale'', PNum (FloatNum 3)),
      (''Frames per Second'', ''fps'', PNum (IntNum 6)),
      (''Motion Bucket ID'', ''motion_bucket_id'', PNum (IntNum 127)),
      (''Noise Augmentation Strength'', ''noise_aug_strength'', PNum (FloatNum float_0_02)),
      (''Decode Chunk Size'', ''decode_chunk_size'', PNum (IntNum 8)),
      (''Seed'', ''seed'', PNum (IntNum 42))]"

definition number_input_step :: "ui \<Rightarrow> world \<Rightarrow> string \<times> string \<times> pyval \<Rightarrow> world" where
  "number_input_step u w field =
     (case field of (label, key, dflt) \<Rightarrow> ss_set key (st_number_input u label (ss_get w key dflt)) w)"

definition main_numbers :: "ui \<Rightarrow> world \<Rightarrow> world" where
  "main_numbers u w = foldl (number_input_step u) w number_inputs"

text \<open>Subscripting a value with a string key, as in \<^verbatim>\<open>data["frames"]\<close>.\<close>

fun py_getitem :: "pyval \<Rightarrow> string \<Rightarrow> error + pyval" where
  "py_getitem (PDict kvs) k = (case map_of kvs k of None \<Rightarrow> Inl (KeyError k) | Some v \<Rightarrow> Inr v)"
| "py_getitem _ k = Inl TypeError"

text \<open>Lines 142 to 146: reading the response, writing the frames, encoding the video.\<close>

definition main_assemble :: "env \<Rightarrow> string \<Rightarrow> world \<Rightarrow> (error + unit) \<times> world" where
  "main_assemble env video_path w =
     (case map_of (w_files w) RESPONSE_PAYLOAD of
        None \<Rightarrow> (Inl (OtherError ''FileNotFoundError''), w)
      | Some raw \<Rightarrow>
          (case json_loads env raw of
             Raises e \<Rightarrow> (Inl e, w)
           | Returns data \<Rightarrow>
               (case py_getitem data ''frames'' of
                  Inl e \<Rightarrow> (Inl e, w)
                | Inr frames \<Rightarrow>
                    (case save_video_frames env frames w of
                       (Inl e, w1) \<Rightarrow> (Inl e, w1)
                     | (Inr _, w1) \<Rightarrow>
                         (case convert_frames_to_video env video_path w1 of
                            (Inl e, w2) \<Rightarrow> (Inl e, w2)
                          | (Inr _, w2) \<Rightarrow>
                              (Inr (), emit (StSuccess (''Video created: '' @ video_path)) w2))))))"

definition play_video :: "string \<Rightarrow> ui \<Rightarrow> world \<Rightarrow> world" where
  "play_video video_path u w =
     (let w1 = ss_set ''play_video_disabled'' (PBool False) w in
      if ui_play_video u
      then (case map_of (w_files w1) video_path of
              Some video_bytes \<Rightarrow> emit (StVideo video_bytes) w1
            | None \<Rightarrow> emit (StWarning
                ''Video does not exist. Please create the video first.   :warning:'') w1)
      else w1)"

text \<open>The whole run; \<open>None\<close> is the run whose polling loop never returns.\<close>

definition main :: "env \<Rightarrow> ui \<Rightarrow> world \<Rightarrow> ((error + unit) \<times> world) option" where
  "main env u w0 =
     (let w1 = reset_session_states w0 in
      case main_upload env u w1 of
        (Inl e, w2) \<Rightarrow> Some (Inl e, w2)
      | (Inr _, w2) \<Rightarrow>
          (let w3 = main_title u w2;
               video_path = main_video_path env w3;
               w4 = main_numbers u w3 in
           if ui_create_video u
           then
             (case invoke_model env (ui_upload u) w4 of
                (Inl e, w5) \<Rightarrow> Some (Inl e, w5)
              | (Inr response_location, w5) \<Rightarrow>
                  (case get_model_response env response_location w5 of
                     None \<Rightarrow> None
                   | Some (Inl e, w6) \<Rightarrow> Some (Inl e, w6)
                   | Some (Inr _, w6) \<Rightarrow>
                       (case main_assemble env video_path w6 of
                          (Inl e, w7) \<Rightarrow> Some (Inl e, w7)
                        | (Inr _, w7) \<Rightarrow> Some (Inr (), play_video video_path u w7))))
           else Some (Inr (), play_video video_path u w4)))"

section \<open>A concrete environment\<close>

text \<open>
  Base 64 as \<^verbatim>\<open>binascii.a2b_base64\<close> reads it in its default mode: characters outside
  the alphabet are skipped, padding that completes a quad ends the input, and input that
  ends inside a quad is an error.
\<close>

definition b64_index :: "char \<Rightarrow> nat option" where
  "b64_index c =
     (let n = (of_char c :: nat) in
      if 65 \<le> n \<and> n \<le> 90 then Some (n - 65)
      else if 97 \<le> n \<and> n \<le> 122 then Some (n - 71)
      else if 48 \<le> n \<and> n \<le> 57 then Some (n + 4)
      else if n = 43 then Some 62
      else if n = 47 then Some 63
      else None)"

fun a2b_base64 :: "nat \<Rightarrow> nat \<Rightarrow> nat \<Rightarrow> bytes \<Rightarrow> bytes \<Rightarrow> bytes outcome" where
  "a2b_base64 quad_pos leftchar pads out [] =
     (if quad_pos \<noteq> 0 then Raises (OtherError ''binascii.Error'') else Returns out)"
| "a2b_base64 quad_pos leftchar pads out (c # cs) =
     (if c = CHR ''='' then
        (if 2 \<le> quad_pos \<and> 4 \<le> quad_pos + (pads + 1) then Returns out
         else a2b_base64 quad_pos leftchar (if 2 \<le> quad_pos then pads + 1 else pads) out cs)
      else
        (case b64_index c of
           None \<Rightarrow> a2b_base64 quad_pos leftchar pads out cs
         | Some v \<Rightarrow>
             if quad_pos = 0 then a2b_base64 1 v 0 out cs
             else if quad_pos = 1
               then a2b_base64 2 (v mod 16) 0 (out @ [char_of (leftchar * 4 + v div 16)]) cs
             else if quad_pos = 2
               then a2b_base64 3 (v mod 4) 0 (out @ [char_of (leftchar * 16 + v div 4)]) cs
             else a2b_base64 0 0 0 (out @ [char_of (leftchar * 64 + v)]) cs))"

definition base64_decodebytes :: "bytes \<Rightarrow> bytes outcome" where
  "base64_decodebytes s = a2b_base64 0 0 0 [] s"

text \<open>A store that answers \<^verbatim>\<open>NoSuchKey\<close> to the first \<open>k\<close> fetches and then has the object.\<close>

definition not_found_then_content :: "nat \<Rightarrow> nat \<Rightarrow> unit outcome" where
  "not_found_then_content k n = (if n < k then Raises (ClientError ''NoSuchKey'') else Returns ())"

text \<open>
  An environment in which every service answers: the store is \<open>store\<close>, the object it
  serves has the contents \<open>raw\<close>, and these contents parse as \<open>doc\<close>.
\<close>

definition stub_env :: "(nat \<Rightarrow> unit outcome) \<Rightarrow> bytes \<Rightarrow> pyval outcome \<Rightarrow> env" where
  "stub_env store raw doc =
     \<lparr> image_open = (\<lambda>up. case up of
          None \<Rightarrow> Raises (OtherError ''AttributeError'')
        | Some f \<Rightarrow> Returns \<lparr>img_width = 512, img_height = 512\<rparr>),
       splitext_root = takeWhile (\<lambda>c. c \<noteq> CHR ''.''),
       py_str = (\<lambda>v. case v of PStr s \<Rightarrow> s | _ \<Rightarrow> ''None''),
       jpeg_b64encode = (\<lambda>img. Returns ''/9j/''),
       json_dumps = (\<lambda>v. ''{}''),
       json_loads = (\<lambda>contents. if contents = raw then doc else Raises (OtherError ''JSONDecodeError'')),
       s3_upload_file = (\<lambda>bucket key body. Returns ()),
       invoke_endpoint_async = (\<lambda>endpoint input_location timeout.
          Returns ''s3://bucket/async_inference/output/out.json''),
       urlparse = (\<lambda>url. (takeWhile (\<lambda>c. c \<noteq> CHR ''/'') (drop 5 url),
                           dropWhile (\<lambda>c. c \<noteq> CHR ''/'') (drop 5 url))),
       s3_get_object = (\<lambda>bucket key. store),
       s3_download_file = (\<lambda>bucket key n. Returns raw),
       b64_decodebytes = base64_decodebytes,
       ffmpeg_run = (\<lambda>inputs framerate. Returns (concat (map snd inputs))) \<rparr>"

text \<open>A world with nothing in it, and eleven frames: the letters A to K in base 64.\<close>

definition empty_world :: world where
  "empty_world = \<lparr>w_session = Map.empty, w_files = [], w_log = []\<rparr>"

definition sample_frames :: "string list" where
  "sample_frames =
     [''QQ=='', ''Qg=='', ''Qw=='', ''RA=='', ''RQ=='', ''Rg=='', ''Rw=='', ''SA=='',
      ''SQ=='', ''Sg=='', ''Sw=='']"

definition sample_decoded :: "bytes list" where
  "sample_decoded =
     [''A'', ''B'', ''C'', ''D'', ''E'', ''F'', ''G'', ''H'', ''I'', ''J'', ''K'']"

text \<open>A response document with these frames.\<close>

definition sample_response :: pyval where
  "sample_response = PDict [(''frames'', PList (map PStr sample_frames))]"

text \<open>
  Three runs of the script with \<^verbatim>\<open>Create Video\<close> pressed: one with an upload of 5 MiB and
  one byte, one with a small upload and every input left alone, and one with the guidance
  scales typed in as 5.0 and 3.0.
\<close>

definition oversized_ui :: ui where
  "oversized_ui =
     \<lparr> ui_upload = Some \<lparr>up_name = ''big.png'', up_size = 5 * 1024 * 1024 + 1\<rparr>,
       ui_title = None,
       ui_numbers = Map.empty,
       ui_create_video = True,
       ui_play_video = False \<rparr>"

definition plain_ui :: ui where
  "plain_ui =
     \<lparr> ui_upload = Some \<lparr>up_name = ''cat.png'', up_size = 1024\<rparr>,
       ui_title = None,
       ui_numbers = Map.empty,
       ui_create_video = True,
       ui_play_video = False \<rparr>"

definition inverted_scales_ui :: ui where
  "inverted_scales_ui =
     \<lparr> ui_upload = Some \<lparr>up_name = ''cat.png'', up_size = 1024\<rparr>,
       ui_title = None,
       ui_numbers = [''Minimum Guidance Scale'' \<mapsto> FloatNum 5,
                     ''Maximum Guidance Scale'' \<mapsto> FloatNum 3],
       ui_create_video = True,
       ui_play_video = False \<rparr>"

text \<open>
  The data model's invariant on a request payload: the minimum guidance scale is at most
  the maximum guidance scale.
\<close>

definition guidance_scales_ordered :: "(string \<times> pyval) list \<Rightarrow> bool" where
  "guidance_scales_ordered data =
     (case (map_of data ''min_guidance_scale'', map_of data ''max_guidance_scale'') of
        (Some (PNum lo), Some (PNum hi)) \<Rightarrow> num_le lo hi
      | _ \<Rightarrow> False)"

section \<open>Notions used in the proofs\<close>

text \<open>
  Reading a decimal numeral back, and the two-character form of a number below 100:
  the frame names of the first 99 frames carry exactly these two characters.
\<close>

definition digit_val :: "char \<Rightarrow> nat" where
  "digit_val c = of_char c - 48"

definition nat_of_digits :: "string \<Rightarrow> nat" where
  "nat_of_digits s = foldl (\<lambda>a c. 10 * a + digit_val c) 0 s"

definition two_digits :: "nat \<Rightarrow> string" where
  "two_digits m = [digit_char (m div 10), digit_char (m mod 10)]"

definition frame_digits :: "nat \<Rightarrow> string" where
  "frame_digits idx = (if idx < 9 then CHR ''0'' # str_nat (idx + 1) else str_nat (idx + 1))"

section \<open>The polling loop\<close>

lemma try_fetch_raises:
  "s3_get_object env bucket key n = Raises e \<Longrightarrow>
   try_fetch env bucket key n w = (Inl e, emit (S3GetObject bucket key) w)"
  by (simp add: try_fetch_def)

lemma try_fetch_returns:
  "s3_get_object env bucket key n = Returns u \<Longrightarrow>
   s3_download_file env bucket key n = Returns content \<Longrightarrow>
   try_fetch env bucket key n w =
     (Inr (), w\<lparr>w_files := AList.update RESPONSE_PAYLOAD content (w_files w),
               w_log := w_log w @ [S3GetObject bucket key,
                                   S3DownloadFile bucket key RESPONSE_PAYLOAD,
                                   Print ''Model response received.'']\<rparr>)"
  by (simp add: try_fetch_def emit_def write_file_def)

lemma loop_not_found_step:
  assumes "s3_get_object env bucket key n = Raises (ClientError ''NoSuchKey'')"
  shows "get_model_response_loop env bucket key n w =
         get_model_response_loop env bucket key (Suc n)
           (w\<lparr>w_log := w_log w @ [S3GetObject bucket key, Print ''Waiting for model output...'', Sleep 15]\<rparr>)"
  using assms
  by (subst get_model_response_loop.simps) (simp add: try_fetch_raises emit_def)

lemma loop_waits:
  assumes "\<forall>i<k. s3_get_object env bucket key (n + i) = Raises (ClientError ''NoSuchKey'')"
  shows "get_model_response_loop env bucket key n w =
         get_model_response_loop env bucket key (n + k)
           (w\<lparr>w_log := w_log w @ concat (replicate k
              [S3GetObject bucket key, Print ''Waiting for model output...'', Sleep 15])\<rparr>)"
  using assms
proof (induction k arbitrary: n w)
  case 0
  then show ?case by simp
next
  case (Suc k)
  have first: "s3_get_object env bucket key n = Raises (ClientError ''NoSuchKey'')"
    using Suc.prems by (metis add.right_neutral zero_less_Suc)
  have rest: "\<forall>i<k. s3_get_object env bucket key (Suc n + i) = Raises (ClientError ''NoSuchKey'')"
    using Suc.prems by (metis Suc_less_eq add_Suc_shift)
  show ?case
    by (simp add: loop_not_found_step [OF first] Suc.IH [OF rest])
qed

lemma loop_found_step:
  assumes "s3_get_object env bucket key n = Returns u"
    and "s3_download_file env bucket key n = Returns content"
  shows "get_model_response_loop env bucket key n w =
     Some (Inr True, w\<lparr>w_files := AList.update RESPONSE_PAYLOAD content (w_files w),
               w_log := w_log w @ [S3GetObject bucket key,
                                   S3DownloadFile bucket key RESPONSE_PAYLOAD,
                                   Print ''Model response received.'']\<rparr>)"
  by (subst get_model_response_loop.simps) (simp add: try_fetch_returns [OF assms])

lemma loop_failed_step:
  assumes "s3_get_object env bucket key n = Raises e"
    and "e \<noteq> ClientError ''NoSuchKey''"
  shows "get_model_response_loop env bucket key n w =
     Some (Inl e, w\<lparr>w_log := w_log w @ [S3GetObject bucket key]\<rparr>)"
  using assms(2)
  by (subst get_model_response_loop.simps)
     (cases e; simp add: try_fetch_raises [OF assms(1)] emit_def)

text \<open>
  Claim C3.  If the store answers \<^verbatim>\<open>NoSuchKey\<close> to the first \<open>k\<close> calls of \<^verbatim>\<open>get_object\<close> and
  has the object at call \<open>k + 1\<close>, then \<^verbatim>\<open>get_model_response\<close> returns \<^verbatim>\<open>True\<close>.  What it
  has done by then is exactly: \<open>k\<close> rounds of fetch, message and \<^verbatim>\<open>sleep(15)\<close>, then one more
  fetch, the download to \<open>RESPONSE_PAYLOAD\<close> and the closing message.  So the fetch that
  finds the object is number \<open>k + 1\<close>, it is the last one, and there are \<open>k\<close> sleeps.
\<close>

theorem poller_found_on_attempt_after_k_not_found:
  assumes "urlparse env response_location = (bucket, path)"
    and "key = drop 1 path"
    and "\<forall>i<k. s3_get_object env bucket key i = Raises (ClientError ''NoSuchKey'')"
    and "s3_get_object env bucket key k = Returns ()"
    and "s3_download_file env bucket key k = Returns content"
  shows "get_model_response env response_location w =
     Some (Inr True,
       w\<lparr>w_files := AList.update RESPONSE_PAYLOAD content (w_files w),
         w_log := w_log w
           @ concat (replicate k
               [S3GetObject bucket key, Print ''Waiting for model output...'', Sleep 15])
           @ [S3GetObject bucket key, S3DownloadFile bucket key RESPONSE_PAYLOAD,
              Print ''Model response received.'']\<rparr>)"
proof -
  have "get_model_response env response_location w = get_model_response_loop env bucket key 0 w"
    using assms(1,2) by (simp add: get_model_response_def)
  also have "\<dots> = get_model_response_loop env bucket key (0 + k)
      (w\<lparr>w_log := w_log w @ concat (replicate k
              [S3GetObject bucket key, Print ''Waiting for model output...'', Sleep 15])\<rparr>)"
    by (rule loop_waits) (simp add: assms(3))
  finally show ?thesis
    by (simp add: loop_found_step [OF assms(4,5)])
qed

theorem poller_found_witness:
  "get_model_response (stub_env (not_found_then_content 2) ''{}'' (Returns (PDict [])))
     ''s3://bucket/async_inference/output/out.json''
     \<lparr>w_session = Map.empty, w_files = [], w_log = []\<rparr> =
   Some (Inr True,
     \<lparr>w_session = Map.empty,
      w_files = [(''response_payloads/output.json'', ''{}'')],
      w_log =
        [S3GetObject ''bucket'' ''async_inference/output/out.json'',
         Print ''Waiting for model output...'', Sleep 15,
         S3GetObject ''bucket'' ''async_inference/output/out.json'',
         Print ''Waiting for model output...'', Sleep 15,
         S3GetObject ''bucket'' ''async_inference/output/out.json'',
         S3DownloadFile ''bucket'' ''async_inference/output/out.json''
           ''response_payloads/output.json'',
         Print ''Model response received.'']\<rparr>)"
  using poller_found_on_attempt_after_k_not_found
    [of "stub_env (not_found_then_content 2) ''{}'' (Returns (PDict []))"
        "''s3://bucket/async_inference/output/out.json''"
        "''bucket''" "''/async_inference/output/out.json''"
        "''async_inference/output/out.json''" 2 "''{}''"
        "\<lparr>w_session = Map.empty, w_files = [], w_log = []\<rparr>"]
  by (simp add: stub_env_def not_found_then_content_def RESPONSE_PAYLOAD_def numeral_2_eq_2)

lemma loop_returns_only_if_answered:
  assumes "get_model_response_loop env bucket key n w = Some r"
  shows "\<exists>i. s3_get_object env bucket key i \<noteq> Raises (ClientError ''NoSuchKey'')"
  using assms
proof (induction rule: get_model_response_loop.raw_induct [rotated 1, consumes 1])
  case (1 loop env bucket key n w r)
  show ?case
  proof (cases "s3_get_object env bucket key n = Raises (ClientError ''NoSuchKey'')")
    case True
    then show ?thesis using 1 by (simp add: try_fetch_raises)
  next
    case False
    then show ?thesis by blast
  qed
qed

text \<open>
  Claim C4.  If a call of \<^verbatim>\<open>get_object\<close> raises any error other than the \<^verbatim>\<open>ClientError\<close> with
  code \<^verbatim>\<open>NoSuchKey\<close> (a \<^verbatim>\<open>ClientError\<close> with another code, or an error that is no
  \<^verbatim>\<open>ClientError\<close> at all, such as a transport failure), after any number \<open>k\<close> of \<^verbatim>\<open>NoSuchKey\<close>
  answers (\<open>k = 0\<close> being the first call), then \<^verbatim>\<open>get_model_response\<close> raises that error at
  once: the failing fetch is the last event, with no sleep and no fetch after it.
\<close>

theorem poller_fails_immediately_on_other_error:
  assumes "urlparse env response_location = (bucket, path)"
    and "key = drop 1 path"
    and "\<forall>i<k. s3_get_object env bucket key i = Raises (ClientError ''NoSuchKey'')"
    and "s3_get_object env bucket key k = Raises e"
    and "e \<noteq> ClientError ''NoSuchKey''"
  shows "get_model_response env response_location w =
     Some (Inl e,
       w\<lparr>w_log := w_log w
           @ concat (replicate k
               [S3GetObject bucket key, Print ''Waiting for model output...'', Sleep 15])
           @ [S3GetObject bucket key]\<rparr>)"
proof -
  have "get_model_response env response_location w = get_model_response_loop env bucket key 0 w"
    using assms(1,2) by (simp add: get_model_response_def)
  also have "\<dots> = get_model_response_loop env bucket key (0 + k)
      (w\<lparr>w_log := w_log w @ concat (replicate k
              [S3GetObject bucket key, Print ''Waiting for model output...'', Sleep 15])\<rparr>)"
    by (rule loop_waits) (simp add: assms(3))
  finally show ?thesis
    by (simp add: loop_failed_step [OF assms(4,5)])
qed

theorem poller_fails_immediately_witness:
  "get_model_response
     (stub_env (\<lambda>n. Raises (ClientError ''AccessDenied'')) ''{}'' (Returns (PDict [])))
     ''s3://bucket/async_inference/output/out.json''
     \<lparr>w_session = Map.empty, w_files = [], w_log = []\<rparr> =
   Some (Inl (ClientError ''AccessDenied''),
     \<lparr>w_session = Map.empty, w_files = [],
      w_log = [S3GetObject ''bucket'' ''async_inference/output/out.json'']\<rparr>)"
  using poller_fails_immediately_on_other_error
    [of "stub_env (\<lambda>n. Raises (ClientError ''AccessDenied'')) ''{}'' (Returns (PDict []))"
        "''s3://bucket/async_inference/output/out.json''"
        "''bucket''" "''/async_inference/output/out.json''"
        "''async_inference/output/out.json''" 0 "ClientError ''AccessDenied''"
        "\<lparr>w_session = Map.empty, w_files = [], w_log = []\<rparr>"]
  by (simp add: stub_env_def)

text \<open>
  Claim C5.  The loop has no bound on time or attempts: when every call of \<^verbatim>\<open>get_object\<close>
  raises \<^verbatim>\<open>NoSuchKey\<close>, \<^verbatim>\<open>get_model_response\<close> never returns, neither with a value nor with
  an error.
\<close>

theorem poller_never_returns_while_not_found:
  assumes "urlparse env response_location = (bucket, path)"
    and "key = drop 1 path"
    and "\<forall>n. s3_get_object env bucket key n = Raises (ClientError ''NoSuchKey'')"
  shows "get_model_response env response_location w = None"
proof (cases "get_model_response env response_location w")
  case None
  then show ?thesis .
next
  case (Some r)
  then have "get_model_response_loop env bucket key 0 w = Some r"
    using assms(1,2) by (simp add: get_model_response_def)
  then have "\<exists>i. s3_get_object env bucket key i \<noteq> Raises (ClientError ''NoSuchKey'')"
    by (rule loop_returns_only_if_answered)
  with assms(3) show ?thesis by simp
qed

theorem poller_never_returns_witness:
  "get_model_response
     (stub_env (\<lambda>n. Raises (ClientError ''NoSuchKey'')) ''{}'' (Returns (PDict [])))
     ''s3://bucket/async_inference/output/out.json''
     \<lparr>w_session = Map.empty, w_files = [], w_log = []\<rparr> = None"
  using poller_never_returns_while_not_found
    [of "stub_env (\<lambda>n. Raises (ClientError ''NoSuchKey'')) ''{}'' (Returns (PDict []))"
        "''s3://bucket/async_inference/output/out.json''"
        "''bucket''" "''/async_inference/output/out.json''"
        "''async_inference/output/out.json''"
        "\<lparr>w_session = Map.empty, w_files = [], w_log = []\<rparr>"]
  by (simp add: stub_env_def)

section \<open>Frame names\<close>

lemma of_char_digit_char: "d < 10 \<Longrightarrow> of_char (digit_char d) = 48 + d"
  by (simp add: digit_char_def)

lemma digit_val_digit_char: "d < 10 \<Longrightarrow> digit_val (digit_char d) = d"
  by (simp add: digit_val_def of_char_digit_char)

lemma digit_char_less: "a < 10 \<Longrightarrow> b < 10 \<Longrightarrow> digit_char a < digit_char b \<longleftrightarrow> a < b"
  by (simp add: less_char_def of_char_digit_char)

lemma digit_char_eq: "a < 10 \<Longrightarrow> b < 10 \<Longrightarrow> digit_char a = digit_char b \<longleftrightarrow> a = b"
  by (metis digit_val_digit_char)

lemma digit_char_0: "digit_char 0 = CHR ''0''"
  by code_simp

lemma digit_char_not_slash: "d < 10 \<Longrightarrow> digit_char d \<noteq> CHR ''/''"
proof
  assume "d < 10" and "digit_char d = CHR ''/''"
  then have "of_char (digit_char d) = (of_char CHR ''/'' :: nat)" by simp
  with \<open>d < 10\<close> show False by (simp add: of_char_digit_char)
qed

lemma nat_of_digits_append:
  "nat_of_digits (s @ [c]) = 10 * nat_of_digits s + digit_val c"
  by (simp add: nat_of_digits_def)

lemma nat_of_digits_str_nat: "nat_of_digits (str_nat n) = n"
proof (induction n rule: str_nat.induct)
  case (1 n)
  show ?case
  proof (cases "n < 10")
    case True
    then show ?thesis
      by (subst str_nat.simps) (simp add: nat_of_digits_def digit_val_digit_char)
  next
    case False
    then have "nat_of_digits (str_nat n) = 10 * nat_of_digits (str_nat (n div 10)) + n mod 10"
      by (subst str_nat.simps) (simp add: nat_of_digits_append digit_val_digit_char)
    with False 1 show ?thesis by simp
  qed
qed

lemma nat_of_digits_zero_Cons: "nat_of_digits (CHR ''0'' # s) = nat_of_digits s"
  by (simp add: nat_of_digits_def digit_val_def)

lemma str_nat_no_slash: "CHR ''/'' \<notin> set (str_nat n)"
proof (induction n rule: str_nat.induct)
  case (1 n)
  show ?case
  proof (cases "n < 10")
    case True
    then show ?thesis
      using digit_char_not_slash [of n] by (subst str_nat.simps) auto
  next
    case False
    then show ?thesis
      using 1 digit_char_not_slash [of "n mod 10"] by (subst str_nat.simps) auto
  qed
qed

lemma str_nat_two_digits:
  assumes "10 \<le> n" "n < 100"
  shows "str_nat n = two_digits n"
proof -
  have "n div 10 < 10" using assms by simp
  then show ?thesis
    using assms by (simp add: str_nat.simps [of n] str_nat.simps [of "n div 10"] two_digits_def)
qed

lemma str_nat_one_digit: "n < 10 \<Longrightarrow> str_nat n = [digit_char n]"
  by (subst str_nat.simps) simp

lemma frame_name_digits: "frame_name idx = ''frames_out/frame_'' @ frame_digits idx @ ''.jpg''"
  by (simp add: frame_name_def frame_digits_def)

lemma nat_of_frame_digits: "nat_of_digits (frame_digits idx) = idx + 1"
  by (simp add: frame_digits_def nat_of_digits_zero_Cons nat_of_digits_str_nat)

lemma frame_name_inj: "frame_name i = frame_name j \<Longrightarrow> i = j"
proof -
  assume "frame_name i = frame_name j"
  then have "frame_digits i = frame_digits j"
    by (simp add: frame_name_digits)
  then have "nat_of_digits (frame_digits i) = nat_of_digits (frame_digits j)"
    by simp
  then show "i = j"
    by (simp add: nat_of_frame_digits)
qed

lemma frame_digits_two: "idx < 99 \<Longrightarrow> frame_digits idx = two_digits (idx + 1)"
  by (simp add: frame_digits_def str_nat_two_digits str_nat_one_digit two_digits_def digit_char_0)

lemma frame_name_two_digits:
  "idx < 99 \<Longrightarrow> frame_name idx = ''frames_out/frame_'' @ two_digits (idx + 1) @ ''.jpg''"
  by (simp add: frame_name_digits frame_digits_two)


lemma two_digits_less:
  assumes "m < n" "n < 100"
  shows "two_digits m @ s < two_digits n @ s"
proof -
  have bounds: "m div 10 < 10" "n div 10 < 10" "m mod 10 < 10" "n mod 10 < 10"
    using assms by simp_all
  have le: "m div 10 \<le> n div 10"
    using assms(1) by (simp add: div_le_mono)
  show ?thesis
  proof (cases "m div 10 < n div 10")
    case True
    then show ?thesis
      by (simp add: two_digits_def digit_char_less bounds)
  next
    case False
    with le have eq: "m div 10 = n div 10" by simp
    have "m = 10 * (m div 10) + m mod 10" and "n = 10 * (n div 10) + n mod 10"
      by simp_all
    with eq assms(1) have "m mod 10 < n mod 10" by linarith
    with eq show ?thesis
      by (simp add: two_digits_def digit_char_less bounds)
  qed
qed

lemma frame_name_less: "i < j \<Longrightarrow> j < 99 \<Longrightarrow> frame_name i < frame_name j"
  using two_digits_less [of "i + 1" "j + 1" "''.jpg''"]
  by (simp add: frame_name_two_digits)

lemma frame_names_sorted:
  "n \<le> 99 \<Longrightarrow> sorted_wrt (<) (map frame_name [0..<n])"
  by (simp add: sorted_wrt_map sorted_wrt_iff_nth_less frame_name_less)

lemma frame_names_sort_id:
  assumes "n \<le> 99"
  shows "sort (map frame_name [0..<n]) = map frame_name [0..<n]"
proof -
  have "sorted (map frame_name [0..<n])"
    using frame_names_sorted [OF assms] by (simp add: strict_sorted_iff)
  then show ?thesis by (rule sort_key_id_if_sorted [of "\<lambda>x. x", simplified])
qed

lemma frame_names_distinct: "distinct (map frame_name [0..<n])"
  by (simp add: distinct_map inj_on_def) (metis frame_name_inj)

lemma frames_glob_frame_name: "frames_glob (frame_name idx)"
  using str_nat_no_slash [of "idx + 1"]
  by (simp add: frames_glob_def frame_name_digits frame_digits_def)

section \<open>The write step\<close>

lemma frame_name_not_in_later:
  "i < idx \<Longrightarrow> frame_name i \<notin> frame_name ` {idx..<idx + n}"
  using frame_name_inj by fastforce

lemma save_frames_loop_other:
  "save_frames_loop dec idx items fs = (r, fs') \<Longrightarrow>
   p \<notin> frame_name ` {idx..<idx + length items} \<Longrightarrow>
   map_of fs' p = map_of fs p"
proof (induction items arbitrary: idx fs)
  case Nil
  then show ?case by simp
next
  case (Cons video_frame rest)
  have p_idx: "p \<noteq> frame_name idx"
    using Cons.prems(2) by auto
  have p_rest: "p \<notin> frame_name ` {idx + 1..<idx + 1 + length rest}"
    using Cons.prems(2) by auto
  show ?case
  proof (cases "py_bytes video_frame")
    case (Inl e)
    with Cons.prems(1) show ?thesis by simp
  next
    case (Inr frame)
    show ?thesis
    proof (cases "dec frame")
      case (Raises e)
      with Inr Cons.prems(1) p_idx show ?thesis
        by (auto simp add: update_conv')
    next
      case (Returns decoded)
      with Inr Cons.prems(1) have
        "save_frames_loop dec (idx + 1) rest
           (AList.update (frame_name idx) decoded (AList.update (frame_name idx) [] fs)) = (r, fs')"
        by simp
      from Cons.IH [OF this p_rest] p_idx show ?thesis
        by (simp add: update_conv')
    qed
  qed
qed

lemma save_frames_loop_keeps_paths:
  "save_frames_loop dec idx items fs = (r, fs') \<Longrightarrow> fst ` set fs \<subseteq> fst ` set fs'"
proof (induction items arbitrary: idx fs)
  case Nil
  then show ?case by simp
next
  case (Cons video_frame rest)
  show ?case
  proof (cases "py_bytes video_frame")
    case (Inl e)
    with Cons.prems show ?thesis by simp
  next
    case (Inr frame)
    show ?thesis
    proof (cases "dec frame")
      case (Raises e)
      with Inr Cons.prems have "fs' = AList.update (frame_name idx) [] fs"
        by simp
      then show ?thesis
        by (simp add: dom_update subset_insertI)
    next
      case (Returns decoded)
      with Inr Cons.prems have
        "save_frames_loop dec (idx + 1) rest
           (AList.update (frame_name idx) decoded (AList.update (frame_name idx) [] fs)) = (r, fs')"
        by simp
      from Cons.IH [OF this] have "insert (frame_name idx) (fst ` set fs) \<subseteq> fst ` set fs'"
        by (simp add: dom_update)
      then show ?thesis
        by blast
    qed
  qed
qed

lemma save_frames_loop_ok:
  assumes "map dec frames = map Returns decoded"
  shows "fst (save_frames_loop dec idx (map PStr frames) fs) = Inr ()"
    and "i < length frames \<Longrightarrow>
         map_of (snd (save_frames_loop dec idx (map PStr frames) fs)) (frame_name (idx + i))
           = Some (decoded ! i)"
  using assms
proof (induction frames arbitrary: decoded idx fs i)
  case Nil
  {
    case 1
    show ?case by simp
  next
    case 2
    then show ?case by simp
  }
next
  case (Cons frame rest)
  {
    case 1
    then obtain d ds where dec: "decoded = d # ds" "dec frame = Returns d" "map dec rest = map Returns ds"
      by (cases decoded) auto
    then show ?case
      using Cons.IH(1) [OF dec(3)] by simp
  next
    case 2
    then obtain d ds where dec: "decoded = d # ds" "dec frame = Returns d" "map dec rest = map Returns ds"
      by (cases decoded) auto
    let ?fs1 = "AList.update (frame_name idx) d (AList.update (frame_name idx) [] fs)"
    have step: "save_frames_loop dec idx (map PStr (frame # rest)) fs =
                save_frames_loop dec (idx + 1) (map PStr rest) ?fs1"
      using dec(2) by simp
    show ?case
    proof (cases i)
      case 0
      obtain r fs' where res: "save_frames_loop dec (idx + 1) (map PStr rest) ?fs1 = (r, fs')"
        by (cases "save_frames_loop dec (idx + 1) (map PStr rest) ?fs1")
      have "frame_name idx \<notin> frame_name ` {idx + 1..<idx + 1 + length (map PStr rest)}"
        by (rule frame_name_not_in_later) simp
      from save_frames_loop_other [OF res this] show ?thesis
        using 0 dec(1) step res by (simp add: update_conv')
    next
      case (Suc j)
      with "2.prems"(1) have "j < length rest" by simp
      from Cons.IH(2) [OF this dec(3), of "idx + 1" ?fs1] show ?thesis
        using Suc dec(1) step by simp
    qed
  }
qed

lemma save_frames_loop_stops:
  assumes "map dec pre = map Returns decoded" and "dec bad = Raises e"
  shows "save_frames_loop dec idx (map PStr (pre @ bad # post)) fs =
         (Inl e, AList.update (frame_name (idx + length pre)) []
                   (snd (save_frames_loop dec idx (map PStr pre) fs)))"
  using assms(1)
proof (induction pre arbitrary: decoded idx fs)
  case Nil
  then show ?case using assms(2) by simp
next
  case (Cons frame rest)
  then obtain d ds where dec: "decoded = d # ds" "dec frame = Returns d" "map dec rest = map Returns ds"
    by (cases decoded) auto
  show ?case
    using dec(2) Cons.IH [OF dec(3)] by simp
qed


lemma save_video_frames_strs:
  "save_video_frames env (PList items) w =
     (fst (save_frames_loop (b64_decodebytes env) 0 items (w_files w)),
      w\<lparr>w_files := snd (save_frames_loop (b64_decodebytes env) 0 items (w_files w))\<rparr>)"
  by (simp add: save_video_frames_def split: prod.splits)

lemma map_of_sorted_names:
  assumes "n \<le> 99"
    and "\<forall>i<n. map_of fs (frame_name i) = Some (decoded ! i)"
    and "length decoded = n"
  shows "map (map_of fs) (sort (map frame_name [0..<n])) = map Some decoded"
proof -
  have "map (map_of fs) (sort (map frame_name [0..<n])) = map (\<lambda>i. map_of fs (frame_name i)) [0..<n]"
    by (simp add: frame_names_sort_id [OF assms(1)])
  also have "\<dots> = map (\<lambda>i. Some (decoded ! i)) [0..<n]"
    using assms(2) by simp
  also have "\<dots> = map Some decoded"
    using assms(3) by (simp add: list_eq_iff_nth_eq)
  finally show ?thesis .
qed

text \<open>
  Claim C1, as amended.  For a list of at most 99 frames that all decode,
  \<^verbatim>\<open>save_video_frames\<close> returns normally and writes one file per frame.  The names are
  distinct, each carries the 1-based position as two decimal characters (so \<^verbatim>\<open>frame_01\<close> for
  the first frame), and they are already in lexical order: reading the files in the sorted
  order of their names gives the decoded frames in input order.  No other file changes.
\<close>

theorem frames_written_in_lexical_order_up_to_99:
  assumes "length frames \<le> 99"
    and "map (b64_decodebytes env) frames = map Returns decoded"
  shows "case save_video_frames env (PList (map PStr frames)) w of
           (r, w') \<Rightarrow>
             r = Inr () \<and>
             distinct (map frame_name [0..<length frames]) \<and>
             (\<forall>i<length frames.
                frame_name i = ''frames_out/frame_'' @ two_digits (i + 1) @ ''.jpg'') \<and>
             sort (map frame_name [0..<length frames]) = map frame_name [0..<length frames] \<and>
             map (map_of (w_files w')) (sort (map frame_name [0..<length frames]))
               = map Some decoded \<and>
             (\<forall>p. p \<notin> set (map frame_name [0..<length frames]) \<longrightarrow>
                  map_of (w_files w') p = map_of (w_files w) p)"
proof -
  let ?dec = "b64_decodebytes env"
  let ?n = "length frames"
  obtain r fs' where loop: "save_frames_loop ?dec 0 (map PStr frames) (w_files w) = (r, fs')"
    by (cases "save_frames_loop ?dec 0 (map PStr frames) (w_files w)")
  have len: "length decoded = ?n"
    using assms(2) by (metis length_map)
  have r: "r = Inr ()"
    using save_frames_loop_ok(1) [OF assms(2), of 0 "w_files w"] loop by simp
  have written: "\<forall>i<?n. map_of fs' (frame_name i) = Some (decoded ! i)"
    using save_frames_loop_ok(2) [OF assms(2), of _ 0 "w_files w"] loop by simp
  have padded: "\<forall>i<?n. frame_name i = ''frames_out/frame_'' @ two_digits (i + 1) @ ''.jpg''"
    using assms(1) by (simp add: frame_name_two_digits)
  have others: "\<forall>p. p \<notin> set (map frame_name [0..<?n]) \<longrightarrow> map_of fs' p = map_of (w_files w) p"
    using save_frames_loop_other [OF loop] by simp
  have "save_video_frames env (PList (map PStr frames)) w = (r, w\<lparr>w_files := fs'\<rparr>)"
    using loop by (simp add: save_video_frames_strs)
  then show ?thesis
    using r written padded others frame_names_distinct [of ?n]
      frame_names_sort_id [OF assms(1)] map_of_sorted_names [OF assms(1) written len]
    by simp
qed

theorem frames_written_in_lexical_order_witness:
  "length sample_frames \<le> 99 \<and>
   map (b64_decodebytes (stub_env (not_found_then_content 0) [] (Returns PNone))) sample_frames
     = map Returns sample_decoded \<and>
   (case save_video_frames (stub_env (not_found_then_content 0) [] (Returns PNone))
           (PList (map PStr sample_frames)) empty_world of
      (r, w') \<Rightarrow>
        r = Inr () \<and>
        distinct (map frame_name [0..<length sample_frames]) \<and>
        (\<forall>i<length sample_frames.
           frame_name i = ''frames_out/frame_'' @ two_digits (i + 1) @ ''.jpg'') \<and>
        sort (map frame_name [0..<length sample_frames])
          = map frame_name [0..<length sample_frames] \<and>
        map (map_of (w_files w')) (sort (map frame_name [0..<length sample_frames]))
          = map Some sample_decoded \<and>
        (\<forall>p. p \<notin> set (map frame_name [0..<length sample_frames]) \<longrightarrow>
             map_of (w_files w') p = map_of (w_files empty_world) p))"
proof -
  let ?env = "stub_env (not_found_then_content 0) [] (Returns PNone)"
  have h1: "length sample_frames \<le> 99"
    by (simp add: sample_frames_def)
  have h2: "map (b64_decodebytes ?env) sample_frames = map Returns sample_decoded"
    by code_simp
  show ?thesis
    by (intro conjI h1 h2 frames_written_in_lexical_order_up_to_99 [OF h1 h2])
qed

lemma frame_100_sorts_before_11: "frame_name 99 < frame_name 10"
  by code_simp

text \<open>
  Claim C1 as stated (every length up to 999) fails at length 100: the name of frame 100,
  \<^verbatim>\<open>frame_100.jpg\<close>, sorts before the name of frame 11, so the names of 100 frames are not in
  lexical order.
\<close>

theorem frame_names_unsorted_at_100:
  "sort (map frame_name [0..<100]) \<noteq> map frame_name [0..<100]"
proof
  assume "sort (map frame_name [0..<100]) = map frame_name [0..<100]"
  then have "sorted (map frame_name [0..<100])"
    by (metis sorted_sort)
  then have "map frame_name [0..<100] ! 10 \<le> map frame_name [0..<100] ! 99"
    by (rule sorted_nth_mono) simp_all
  then have "frame_name 10 \<le> frame_name 99"
    by simp
  with frame_100_sorts_before_11 show False by simp
qed

text \<open>
  Claim C2 as stated (nothing of the list stays written when an entry fails to decode)
  fails for the two entries \<^verbatim>\<open>QUJD\<close> and \<^verbatim>\<open>Q\<close>: the second raises \<^verbatim>\<open>binascii.Error\<close>, the
  file of the first is left with its three decoded bytes, and the file of the second is
  left empty.
\<close>

theorem earlier_frames_stay_written_counterexample:
  "fst (save_video_frames (stub_env (not_found_then_content 0) [] (Returns PNone))
          (PList [PStr ''QUJD'', PStr ''Q'']) empty_world)
     = Inl (OtherError ''binascii.Error'') \<and>
   w_files (snd (save_video_frames (stub_env (not_found_then_content 0) [] (Returns PNone))
          (PList [PStr ''QUJD'', PStr ''Q'']) empty_world))
     = [(''frames_out/frame_01.jpg'', ''ABC''), (''frames_out/frame_02.jpg'', [])]"
  by code_simp

text \<open>
  Claim C2, as amended.  When the entries before \<open>bad\<close> decode and \<open>bad\<close> does not,
  \<^verbatim>\<open>save_video_frames\<close> raises the decoder's error at \<open>bad\<close>.  The files of the earlier
  entries hold their decoded bytes, the file of \<open>bad\<close> has been opened and is empty, and no
  other file has changed: the entries after \<open>bad\<close> are not written.
\<close>

theorem write_stops_at_first_undecodable_frame:
  assumes "map (b64_decodebytes env) pre = map Returns decoded"
    and "b64_decodebytes env bad = Raises e"
  shows "case save_video_frames env (PList (map PStr (pre @ bad # post))) w of
           (r, w') \<Rightarrow>
             r = Inl e \<and>
             (\<forall>i<length pre. map_of (w_files w') (frame_name i) = Some (decoded ! i)) \<and>
             map_of (w_files w') (frame_name (length pre)) = Some [] \<and>
             (\<forall>p. p \<notin> set (map frame_name [0..<length pre + 1]) \<longrightarrow>
                  map_of (w_files w') p = map_of (w_files w) p)"
proof -
  let ?dec = "b64_decodebytes env"
  let ?k = "length pre"
  let ?fs1 = "snd (save_frames_loop ?dec 0 (map PStr pre) (w_files w))"
  let ?fs' = "AList.update (frame_name ?k) [] ?fs1"
  have loop: "save_frames_loop ?dec 0 (map PStr (pre @ bad # post)) (w_files w) = (Inl e, ?fs')"
    using save_frames_loop_stops [OF assms, of 0 post "w_files w"] by simp
  have pre_loop: "save_frames_loop ?dec 0 (map PStr pre) (w_files w)
                  = (fst (save_frames_loop ?dec 0 (map PStr pre) (w_files w)), ?fs1)"
    by simp
  have earlier: "\<forall>i<?k. map_of ?fs' (frame_name i) = Some (decoded ! i)"
  proof (intro allI impI)
    fix i assume "i < ?k"
    then have "frame_name i \<noteq> frame_name ?k"
      using frame_name_inj by blast
    then show "map_of ?fs' (frame_name i) = Some (decoded ! i)"
      using save_frames_loop_ok(2) [OF assms(1) \<open>i < ?k\<close>, of 0 "w_files w"]
      by (simp add: update_conv')
  qed
  have failing: "map_of ?fs' (frame_name ?k) = Some []"
    by (simp add: update_conv')
  have others: "\<forall>p. p \<notin> set (map frame_name [0..<?k + 1]) \<longrightarrow> map_of ?fs' p = map_of (w_files w) p"
  proof (intro allI impI)
    fix p assume p: "p \<notin> set (map frame_name [0..<?k + 1])"
    then have "p \<noteq> frame_name ?k" and "p \<notin> frame_name ` {0..<0 + length (map PStr pre)}"
      by auto
    then show "map_of ?fs' p = map_of (w_files w) p"
      using save_frames_loop_other [OF pre_loop] by (simp add: update_conv')
  qed
  have "save_video_frames env (PList (map PStr (pre @ bad # post))) w = (Inl e, w\<lparr>w_files := ?fs'\<rparr>)"
    using loop by (simp add: save_video_frames_strs)
  then show ?thesis
    using earlier failing others by simp
qed

theorem write_stops_witness:
  "map (b64_decodebytes (stub_env (not_found_then_content 0) [] (Returns PNone))) [''QUJD'']
     = map Returns [''ABC''] \<and>
   b64_decodebytes (stub_env (not_found_then_content 0) [] (Returns PNone)) ''Q''
     = Raises (OtherError ''binascii.Error'') \<and>
   (case save_video_frames (stub_env (not_found_then_content 0) [] (Returns PNone))
           (PList (map PStr ([''QUJD''] @ ''Q'' # [''REVG''])))
           \<lparr>w_session = Map.empty, w_files = [(frame_name 2, ''old'')], w_log = []\<rparr> of
      (r, w') \<Rightarrow>
        r = Inl (OtherError ''binascii.Error'') \<and>
        map_of (w_files w') (frame_name 0) = Some ''ABC'' \<and>
        map_of (w_files w') (frame_name 1) = Some [] \<and>
        map_of (w_files w') (frame_name 2) = Some ''old'')"
proof -
  let ?env = "stub_env (not_found_then_content 0) [] (Returns PNone)"
  have h1: "map (b64_decodebytes ?env) [''QUJD''] = map Returns [''ABC'']"
    by code_simp
  have h2: "b64_decodebytes ?env ''Q'' = Raises (OtherError ''binascii.Error'')"
    by code_simp
  have other: "frame_name 2 \<notin> set (map frame_name [0..<length [''QUJD''] + 1])"
    using frame_name_inj [of 2 0] frame_name_inj [of 2 1] by auto
  show ?thesis
    using h1 h2 other
      write_stops_at_first_undecodable_frame [OF h1 h2, where post = "[''REVG'']"
        and w = "\<lparr>w_session = Map.empty, w_files = [(frame_name 2, ''old'')], w_log = []\<rparr>"]
    by (simp split: prod.splits)
qed

section \<open>Frames left by an earlier run\<close>

lemma glob_frames_set: "set (glob_frames fs) = {p \<in> fst ` set fs. frames_glob p}"
  by (auto simp add: glob_frames_def)

lemma ffmpeg_inputs_member:
  "p \<in> set (glob_frames fs) \<Longrightarrow> (p, read_file fs p) \<in> set (ffmpeg_inputs fs)"
  by (simp add: ffmpeg_inputs_def)

lemma convert_frames_to_video_log:
  "w_session w ''fps'' = Some framerate \<Longrightarrow>
   w_log (snd (convert_frames_to_video env video_path w))
     = w_log w @ [FfmpegRun (glob_frames (w_files w)) framerate video_path]"
  by (simp add: convert_frames_to_video_def emit_def write_file_def Let_def split: outcome.splits)

lemma convert_frames_to_video_returns:
  assumes "w_session w ''fps'' = Some framerate"
    and "ffmpeg_run env (ffmpeg_inputs (w_files w)) framerate = Returns video"
  shows "convert_frames_to_video env video_path w =
     (Inr (), w\<lparr>w_files := AList.update video_path video (w_files w),
               w_log := w_log w @ [FfmpegRun (glob_frames (w_files w)) framerate video_path]\<rparr>)"
  using assms by (simp add: convert_frames_to_video_def emit_def write_file_def Let_def)

lemma convert_frames_to_video_raises:
  assumes "w_session w ''fps'' = Some framerate"
    and "ffmpeg_run env (ffmpeg_inputs (w_files w)) framerate = Raises e"
  shows "convert_frames_to_video env video_path w =
     (Inl e, w\<lparr>w_log := w_log w @ [FfmpegRun (glob_frames (w_files w)) framerate video_path]\<rparr>)"
  using assms by (simp add: convert_frames_to_video_def emit_def Let_def)

lemma main_assemble_returns:
  assumes "map_of (w_files w) RESPONSE_PAYLOAD = Some raw"
    and "json_loads env raw = Returns (PDict kvs)"
    and "map_of kvs ''frames'' = Some frames"
    and "save_video_frames env frames w = (Inr (), w')"
    and "w_session w' ''fps'' = Some framerate"
    and "ffmpeg_run env (ffmpeg_inputs (w_files w')) framerate = Returns video"
  shows "main_assemble env video_path w =
     (Inr (), w'\<lparr>w_files := AList.update video_path video (w_files w'),
                w_log := w_log w' @ [FfmpegRun (glob_frames (w_files w')) framerate video_path,
                                     StSuccess (''Video created: '' @ video_path)]\<rparr>)"
  using assms(1-4)
  by (simp add: main_assemble_def convert_frames_to_video_returns [OF assms(5,6)] emit_def)

text \<open>
  Claim C10.  \<^verbatim>\<open>save_video_frames\<close> on a list of \<open>N\<close> entries changes no file other than
  those named for frames 1 to \<open>N\<close> and removes no path, whether or not it ends with an error.
  \<^verbatim>\<open>convert_frames_to_video\<close> runs ffmpeg on every file that matches \<^verbatim>\<open>frames_out/*.jpg\<close> and
  writes what ffmpeg returns to the video path.  So a frame file left by an earlier run at a
  position \<open>j\<close> beyond the new list keeps its contents, is among the inputs ffmpeg is run
  on, and the video written (by \<^verbatim>\<open>convert_frames_to_video\<close>, and so by the assembling step of
  \<^verbatim>\<open>main\<close>) is ffmpeg's output for the inputs that include it.
\<close>

theorem stale_frame_files_survive_and_are_encoded:
  assumes "length items \<le> j"
    and "map_of (w_files w) (frame_name j) = Some stale"
    and "w_session w ''fps'' = Some framerate"
  shows "case save_video_frames env (PList items) w of
           (r, w') \<Rightarrow>
             (\<forall>p. p \<notin> set (map frame_name [0..<length items]) \<longrightarrow>
                  map_of (w_files w') p = map_of (w_files w) p) \<and>
             fst ` set (w_files w) \<subseteq> fst ` set (w_files w') \<and>
             set (glob_frames (w_files w')) = {p \<in> fst ` set (w_files w'). frames_glob p} \<and>
             map_of (w_files w') (frame_name j) = Some stale \<and>
             (frame_name j, stale) \<in> set (ffmpeg_inputs (w_files w')) \<and>
             (\<forall>video video_path.
                ffmpeg_run env (ffmpeg_inputs (w_files w')) framerate = Returns video \<longrightarrow>
                convert_frames_to_video env video_path w' =
                  (Inr (),
                   w'\<lparr>w_files := AList.update video_path video (w_files w'),
                      w_log := w_log w'
                        @ [FfmpegRun (glob_frames (w_files w')) framerate video_path]\<rparr>)) \<and>
             (\<forall>video video_path raw kvs.
                ffmpeg_run env (ffmpeg_inputs (w_files w')) framerate = Returns video \<and>
                r = Inr () \<and>
                map_of (w_files w) RESPONSE_PAYLOAD = Some raw \<and>
                json_loads env raw = Returns (PDict kvs) \<and>
                map_of kvs ''frames'' = Some (PList items) \<longrightarrow>
                main_assemble env video_path w =
                  (Inr (),
                   w'\<lparr>w_files := AList.update video_path video (w_files w'),
                      w_log := w_log w'
                        @ [FfmpegRun (glob_frames (w_files w')) framerate video_path,
                           StSuccess (''Video created: '' @ video_path)]\<rparr>))"
proof -
  let ?dec = "b64_decodebytes env"
  obtain r fs' where loop: "save_frames_loop ?dec 0 items (w_files w) = (r, fs')"
    by (cases "save_frames_loop ?dec 0 items (w_files w)")
  let ?w' = "w\<lparr>w_files := fs'\<rparr>"
  have saved: "save_video_frames env (PList items) w = (r, ?w')"
    using loop by (simp add: save_video_frames_strs)
  have others: "\<forall>p. p \<notin> set (map frame_name [0..<length items]) \<longrightarrow> map_of fs' p = map_of (w_files w) p"
    using save_frames_loop_other [OF loop] by simp
  have kept: "fst ` set (w_files w) \<subseteq> fst ` set fs'"
    by (rule save_frames_loop_keeps_paths [OF loop])
  have "frame_name j \<notin> set (map frame_name [0..<length items])"
    using assms(1) frame_name_inj by fastforce
  with others assms(2) have stale: "map_of fs' (frame_name j) = Some stale"
    by simp
  then have "frame_name j \<in> fst ` set fs'"
    by (metis map_of_SomeD fst_conv image_eqI)
  then have "frame_name j \<in> set (glob_frames fs')"
    by (simp add: glob_frames_set frames_glob_frame_name)
  then have input: "(frame_name j, stale) \<in> set (ffmpeg_inputs fs')"
    using ffmpeg_inputs_member [of "frame_name j" fs'] stale by (simp add: read_file_def)
  have fps: "w_session ?w' ''fps'' = Some framerate"
    using assms(3) by simp
  have encoded: "\<forall>video video_path.
      ffmpeg_run env (ffmpeg_inputs (w_files ?w')) framerate = Returns video \<longrightarrow>
      convert_frames_to_video env video_path ?w' =
        (Inr (), ?w'\<lparr>w_files := AList.update video_path video (w_files ?w'),
                     w_log := w_log ?w'
                        @ [FfmpegRun (glob_frames (w_files ?w')) framerate video_path]\<rparr>)"
    using convert_frames_to_video_returns [OF fps] by blast
  have assembled: "\<forall>video video_path raw kvs.
      ffmpeg_run env (ffmpeg_inputs (w_files ?w')) framerate = Returns video \<and>
      r = Inr () \<and>
      map_of (w_files w) RESPONSE_PAYLOAD = Some raw \<and>
      json_loads env raw = Returns (PDict kvs) \<and>
      map_of kvs ''frames'' = Some (PList items) \<longrightarrow>
      main_assemble env video_path w =
        (Inr (), ?w'\<lparr>w_files := AList.update video_path video (w_files ?w'),
                     w_log := w_log ?w'
                        @ [FfmpegRun (glob_frames (w_files ?w')) framerate video_path,
                           StSuccess (''Video created: '' @ video_path)]\<rparr>)"
    using main_assemble_returns [where w = w and w' = ?w' and env = env and framerate = framerate
        and frames = "PList items"] saved fps
    by blast
  have globbed: "set (glob_frames (w_files ?w')) = {p \<in> fst ` set (w_files ?w'). frames_glob p}"
    by (rule glob_frames_set)
  have A: "\<forall>p. p \<notin> set (map frame_name [0..<length items]) \<longrightarrow>
      map_of (w_files ?w') p = map_of (w_files w) p"
    using others by simp
  have B: "fst ` set (w_files w) \<subseteq> fst ` set (w_files ?w')"
    using kept by simp
  have C: "map_of (w_files ?w') (frame_name j) = Some stale"
    using stale by simp
  have D: "(frame_name j, stale) \<in> set (ffmpeg_inputs (w_files ?w'))"
    using input by simp
  show ?thesis
    unfolding saved prod.case
    by (intro conjI A B globbed C D encoded assembled)
qed

theorem stale_frame_files_witness:
  "length [PStr ''QUJD'', PStr ''REVG''] \<le> 2 \<and>
   map_of (w_files (empty_world\<lparr>w_session := [''fps'' \<mapsto> PNum (IntNum 6)],
                                 w_files := [(frame_name 2, ''old'')]\<rparr>)) (frame_name 2)
     = Some ''old'' \<and>
   w_session (empty_world\<lparr>w_session := [''fps'' \<mapsto> PNum (IntNum 6)],
                           w_files := [(frame_name 2, ''old'')]\<rparr>) ''fps''
     = Some (PNum (IntNum 6)) \<and>
   (case save_video_frames (stub_env (not_found_then_content 0) [] (Returns PNone))
           (PList [PStr ''QUJD'', PStr ''REVG''])
           (empty_world\<lparr>w_session := [''fps'' \<mapsto> PNum (IntNum 6)],
                         w_files := [(frame_name 2, ''old'')]\<rparr>) of
      (r, w') \<Rightarrow>
        map_of (w_files w') (frame_name 2) = Some ''old'' \<and>
        (frame_name 2, ''old'') \<in> set (ffmpeg_inputs (w_files w')) \<and>
        ffmpeg_run (stub_env (not_found_then_content 0) [] (Returns PNone))
          (ffmpeg_inputs (w_files w')) (PNum (IntNum 6)) = Returns ''ABCDEFold'' \<and>
        map_of (w_files (snd (convert_frames_to_video
                 (stub_env (not_found_then_content 0) [] (Returns PNone))
                 ''video_out/demo.mp4'' w'))) ''video_out/demo.mp4'' = Some ''ABCDEFold'')"
proof -
  let ?env = "stub_env (not_found_then_content 0) [] (Returns PNone)"
  let ?w = "empty_world\<lparr>w_session := [''fps'' \<mapsto> PNum (IntNum 6)],
                        w_files := [(frame_name 2, ''old'')]\<rparr>"
  let ?items = "[PStr ''QUJD'', PStr ''REVG'']"
  have h1: "length ?items \<le> 2" by simp
  have h2: "map_of (w_files ?w) (frame_name 2) = Some ''old''" by simp
  have h3: "w_session ?w ''fps'' = Some (PNum (IntNum 6))" by simp
  obtain r w' where saved: "save_video_frames ?env (PList ?items) ?w = (r, w')"
    by (cases "save_video_frames ?env (PList ?items) ?w")
  have "ffmpeg_run ?env (ffmpeg_inputs (w_files (snd (save_video_frames ?env (PList ?items) ?w))))
          (PNum (IntNum 6)) = Returns ''ABCDEFold''"
    by code_simp
  with saved have video: "ffmpeg_run ?env (ffmpeg_inputs (w_files w')) (PNum (IntNum 6))
      = Returns ''ABCDEFold''"
    by simp
  from stale_frame_files_survive_and_are_encoded [OF h1 h2 h3, of ?env] saved video
  have "map_of (w_files w') (frame_name 2) = Some ''old''"
    and "(frame_name 2, ''old'') \<in> set (ffmpeg_inputs (w_files w'))"
    and "convert_frames_to_video ?env ''video_out/demo.mp4'' w' =
           (Inr (), w'\<lparr>w_files := AList.update ''video_out/demo.mp4'' ''ABCDEFold'' (w_files w'),
                      w_log := w_log w'
                        @ [FfmpegRun (glob_frames (w_files w')) (PNum (IntNum 6))
                             ''video_out/demo.mp4'']\<rparr>)"
    by simp_all
  then show ?thesis
    using h1 h2 h3 saved video by (simp add: update_conv')
qed

section \<open>Reading the response\<close>

text \<open>
  Claim C7.  When the response document is a dictionary without the key \<^verbatim>\<open>frames\<close>,
  \<^verbatim>\<open>data["frames"]\<close> raises \<^verbatim>\<open>KeyError\<close>: the step ends there with the world as it was, so no
  frame file is written or changed and ffmpeg is not run.
\<close>

theorem missing_frames_field_raises_before_any_write:
  assumes "map_of (w_files w) RESPONSE_PAYLOAD = Some raw"
    and "json_loads env raw = Returns (PDict kvs)"
    and "map_of kvs ''frames'' = None"
  shows "main_assemble env video_path w = (Inl (KeyError ''frames''), w)"
  using assms by (simp add: main_assemble_def)

theorem missing_frames_field_witness:
  "map_of (w_files (empty_world\<lparr>w_files := [(RESPONSE_PAYLOAD, ''{}''), (frame_name 0, ''old'')]\<rparr>))
     RESPONSE_PAYLOAD = Some ''{}'' \<and>
   json_loads (stub_env (not_found_then_content 0) ''{}'' (Returns (PDict [(''status'', PStr ''done'')])))
     ''{}'' = Returns (PDict [(''status'', PStr ''done'')]) \<and>
   map_of [(''status'', PStr ''done'')] ''frames'' = None \<and>
   main_assemble (stub_env (not_found_then_content 0) ''{}'' (Returns (PDict [(''status'', PStr ''done'')])))
     ''video_out/demo.mp4''
     (empty_world\<lparr>w_files := [(RESPONSE_PAYLOAD, ''{}''), (frame_name 0, ''old'')]\<rparr>)
   = (Inl (KeyError ''frames''),
      empty_world\<lparr>w_files := [(RESPONSE_PAYLOAD, ''{}''), (frame_name 0, ''old'')]\<rparr>)"
proof -
  let ?w = "empty_world\<lparr>w_files := [(RESPONSE_PAYLOAD, ''{}''), (frame_name 0, ''old'')]\<rparr>"
  let ?env = "stub_env (not_found_then_content 0) ''{}'' (Returns (PDict [(''status'', PStr ''done'')]))"
  have h1: "map_of (w_files ?w) RESPONSE_PAYLOAD = Some ''{}''" by simp
  have h2: "json_loads ?env ''{}'' = Returns (PDict [(''status'', PStr ''done'')])"
    by (simp add: stub_env_def)
  have h3: "map_of [(''status'', PStr ''done'')] ''frames'' = None" by simp
  show ?thesis
    by (intro conjI h1 h2 h3 missing_frames_field_raises_before_any_write [OF h1 h2 h3])
qed

section \<open>The request payload\<close>

lemma main_numbers_session_items:
  "session_items (w_session (main_numbers u w)) parameter_keys =
     Inr (map (\<lambda>(label, key, dflt). (key, st_number_input u label (ss_get w key dflt)))
            number_inputs)"
  by (simp add: main_numbers_def number_inputs_def number_input_step_def parameter_keys_def
      ss_set_def ss_get_def)

lemma request_data_after_main_numbers:
  assumes "encode_image env img = Returns encoded"
  shows "request_data env img (main_numbers u w) =
     Inr ((''image'', PStr encoded)
            # map (\<lambda>(label, key, dflt). (key, st_number_input u label (ss_get w key dflt)))
                number_inputs)"
  using assms by (simp add: request_data_def main_numbers_session_items)

section \<open>The size check and the submission\<close>

lemma emit_log: "w_log (emit ev w) = w_log w @ [ev]"
  by (simp add: emit_def)

lemma ss_set_log: "w_log (ss_set k v w) = w_log w"
  by (simp add: ss_set_def)

lemma write_file_log: "w_log (write_file path content w) = w_log w"
  by (simp add: write_file_def)

lemma number_inputs_log: "w_log (foldl (number_input_step u) w inputs) = w_log w"
  by (induction inputs arbitrary: w) (simp_all add: number_input_step_def ss_set_log split: prod.splits)

lemma main_numbers_log: "w_log (main_numbers u w) = w_log w"
  by (simp add: main_numbers_def number_inputs_log)

lemma main_title_log: "w_log (main_title u w) = w_log w"
  by (simp add: main_title_def ss_set_log)

lemma main_upload_oversized:
  "ui_upload u = Some up \<Longrightarrow> MAX_FILE_SIZE < up_size up \<Longrightarrow>
   main_upload env u w =
     (Inr (), emit (StError
        ''The uploaded file is too large. Please upload an image smaller than 5MB.'') w)"
  by (simp add: main_upload_def)

lemma invoke_model_events:
  assumes "image_open env up = Returns img" and "request_data env img w = Inr data"
  shows "set (w_log w) \<union>
           {S3UploadFile REQUEST_PAYLOAD S3_BUCKET ''async_inference/input/payload.json''}
         \<subseteq> set (w_log (snd (invoke_model env up w)))"
  using assms
  by (auto simp add: invoke_model_def upload_file_def emit_log write_file_log Let_def
      split: outcome.splits)

lemma invoke_model_submitted:
  assumes "invoke_model env up w = (Inr response_location, w')"
  shows "InvokeEndpointAsync ENDPOINT_NAME
           (''s3://'' @ S3_BUCKET @ ''/async_inference/input/payload.json'') 3600
         \<in> set (w_log w')"
  using assms
  by (auto simp add: invoke_model_def upload_file_def emit_log write_file_log Let_def
      split: outcome.splits sum.splits)

lemma try_fetch_log: "set (w_log w) \<subseteq> set (w_log (snd (try_fetch env bucket key n w)))"
  by (auto simp add: try_fetch_def emit_log write_file_log Let_def split: outcome.splits)

lemma loop_log:
  assumes "get_model_response_loop env bucket key n w = Some rw"
  shows "set (w_log w) \<subseteq> set (w_log (snd rw))"
  using assms
proof (induction rule: get_model_response_loop.raw_induct [rotated 1, consumes 1])
  case (1 loop env bucket key n w rw)
  obtain res w1 where tf: "try_fetch env bucket key n w = (res, w1)"
    by (cases "try_fetch env bucket key n w")
  have w1: "set (w_log w) \<subseteq> set (w_log w1)"
    using try_fetch_log [of w env bucket key n] tf by simp
  show ?case
  proof (cases res)
    case (Inr u)
    with 1(2) tf w1 show ?thesis by auto
  next
    case (Inl e)
    show ?thesis
    proof (cases "e = ClientError ''NoSuchKey''")
      case True
      with 1(2) tf Inl have
        "loop env bucket key (Suc n)
           (emit (Sleep 15) (emit (Print ''Waiting for model output...'') w1)) = Some rw"
        by simp
      from 1(1) [OF this] w1 show ?thesis
        by (auto simp add: emit_log)
    next
      case False
      with 1(2) tf Inl have "rw = (Inl e, w1)"
        by (cases e) (auto split: if_splits)
      with w1 show ?thesis by simp
    qed
  qed
qed

lemma get_model_response_log:
  "get_model_response env response_location w = Some rw \<Longrightarrow>
   set (w_log w) \<subseteq> set (w_log (snd rw))"
  by (simp add: get_model_response_def Let_def loop_log)

lemma save_video_frames_log: "w_log (snd (save_video_frames env video_frames w)) = w_log w"
  by (simp add: save_video_frames_def split: sum.splits prod.splits)

lemma convert_frames_to_video_log_grows:
  "set (w_log w) \<subseteq> set (w_log (snd (convert_frames_to_video env video_path w)))"
  by (auto simp add: convert_frames_to_video_def emit_log write_file_log Let_def
      split: option.splits outcome.splits)

lemma main_assemble_log:
  "set (w_log w) \<subseteq> set (w_log (snd (main_assemble env video_path w)))"
proof (cases "map_of (w_files w) RESPONSE_PAYLOAD")
  case None
  then show ?thesis by (simp add: main_assemble_def)
next
  case (Some raw)
  show ?thesis
  proof (cases "json_loads env raw")
    case (Raises e)
    with Some show ?thesis by (simp add: main_assemble_def)
  next
    case (Returns data)
    show ?thesis
    proof (cases "py_getitem data ''frames''")
      case (Inl e)
      with Some Returns show ?thesis by (simp add: main_assemble_def)
    next
      case (Inr frames)
      obtain r1 w1 where saved: "save_video_frames env frames w = (r1, w1)"
        by (cases "save_video_frames env frames w")
      have log1: "w_log w1 = w_log w"
        using save_video_frames_log [of env frames w] saved by simp
      obtain r2 w2 where converted: "convert_frames_to_video env video_path w1 = (r2, w2)"
        by (cases "convert_frames_to_video env video_path w1")
      have log2: "set (w_log w1) \<subseteq> set (w_log w2)"
        using convert_frames_to_video_log_grows [of w1 env video_path] converted by simp
      have "main_assemble env video_path w =
              (case r1 of
                 Inl e \<Rightarrow> (Inl e, w1)
               | Inr u \<Rightarrow>
                   (case r2 of
                      Inl e \<Rightarrow> (Inl e, w2)
                    | Inr u \<Rightarrow> (Inr (), emit (StSuccess (''Video created: '' @ video_path)) w2)))"
        using Some Returns Inr saved converted by (simp add: main_assemble_def split: sum.splits)
      then show ?thesis
        using log1 log2 by (auto simp add: emit_log split: sum.splits)
    qed
  qed
qed

lemma play_video_log: "set (w_log w) \<subseteq> set (w_log (play_video video_path u w))"
  by (auto simp add: play_video_def emit_log ss_set_log Let_def split: option.splits)

lemma stub_poll_returns:
  "get_model_response (stub_env (not_found_then_content 0) raw doc) response_location w \<noteq> None"
proof -
  let ?env = "stub_env (not_found_then_content 0) raw doc"
  have "s3_get_object ?env bucket key 0 = Returns ()" for bucket key
    by (simp add: stub_env_def not_found_then_content_def)
  moreover have "s3_download_file ?env bucket key 0 = Returns raw" for bucket key
    by (simp add: stub_env_def)
  ultimately show ?thesis
    by (simp add: get_model_response_def Let_def loop_found_step)
qed

text \<open>
  Claim C6 says that an upload above 5 MiB is rejected before any network call.  The size
  check of \<^verbatim>\<open>main\<close> only shows the error message; it does not stop the run.  Whenever such a
  file is uploaded and \<^verbatim>\<open>Create Video\<close> is pressed (and the image opens and encodes),
  \<^verbatim>\<open>invoke_model\<close> is still called and uploads the request to S3: if the run returns, its log
  holds the error message and the upload; if it does not return, it is polling for the
  result of a request it has uploaded and submitted.
\<close>

theorem oversized_upload_is_still_submitted:
  assumes "ui_upload u = Some up"
    and "MAX_FILE_SIZE < up_size up"
    and "ui_create_video u"
    and "image_open env (Some up) = Returns img"
    and "encode_image env img = Returns encoded"
  shows "case main env u w0 of
           Some (r, w') \<Rightarrow>
             StError ''The uploaded file is too large. Please upload an image smaller than 5MB.''
               \<in> set (w_log w') \<and>
             S3UploadFile REQUEST_PAYLOAD S3_BUCKET ''async_inference/input/payload.json''
               \<in> set (w_log w')
         | None \<Rightarrow>
             (\<exists>response_location w5.
                S3UploadFile REQUEST_PAYLOAD S3_BUCKET ''async_inference/input/payload.json''
                  \<in> set (w_log w5) \<and>
                InvokeEndpointAsync ENDPOINT_NAME
                  (''s3://'' @ S3_BUCKET @ ''/async_inference/input/payload.json'') 3600
                  \<in> set (w_log w5) \<and>
                get_model_response env response_location w5 = None)"
proof -
  let ?msg = "StError ''The uploaded file is too large. Please upload an image smaller than 5MB.''"
  let ?put = "S3UploadFile REQUEST_PAYLOAD S3_BUCKET ''async_inference/input/payload.json''"
  let ?w2 = "emit ?msg (reset_session_states w0)"
  let ?w3 = "main_title u ?w2"
  let ?w4 = "main_numbers u ?w3"
  let ?path = "main_video_path env ?w3"
  obtain res w5 where invoked: "invoke_model env (Some up) ?w4 = (res, w5)"
    by (cases "invoke_model env (Some up) ?w4")
  have "?msg \<in> set (w_log ?w4)"
    by (simp add: main_numbers_log main_title_log emit_log)
  moreover have "set (w_log ?w4) \<union> {?put} \<subseteq> set (w_log w5)"
    using invoke_model_events [OF assms(4) request_data_after_main_numbers [OF assms(5)],
        of u ?w3] invoked by simp
  ultimately have w5: "?msg \<in> set (w_log w5)" "?put \<in> set (w_log w5)"
    by auto
  have run: "main env u w0 =
      (case res of
         Inl e \<Rightarrow> Some (Inl e, w5)
       | Inr response_location \<Rightarrow>
           (case get_model_response env response_location w5 of
              None \<Rightarrow> None
            | Some (Inl e, w6) \<Rightarrow> Some (Inl e, w6)
            | Some (Inr b, w6) \<Rightarrow>
                (case main_assemble env ?path w6 of
                   (Inl e, w7) \<Rightarrow> Some (Inl e, w7)
                 | (Inr v, w7) \<Rightarrow> Some (Inr (), play_video ?path u w7))))"
    using assms(1,3) invoked
    by (simp add: main_def main_upload_oversized [OF assms(1,2)] Let_def split: sum.splits)
  show ?thesis
  proof (cases res)
    case (Inl e)
    with run w5 show ?thesis by simp
  next
    case (Inr response_location)
    have submitted: "InvokeEndpointAsync ENDPOINT_NAME
        (''s3://'' @ S3_BUCKET @ ''/async_inference/input/payload.json'') 3600 \<in> set (w_log w5)"
      using invoke_model_submitted [of env "Some up" ?w4 response_location w5] invoked Inr
      by simp
    show ?thesis
    proof (cases "get_model_response env response_location w5")
      case None
      with run Inr w5(2) submitted show ?thesis by auto
    next
      case (Some rw)
      obtain r6 w6 where rw: "rw = (r6, w6)" by (cases rw)
      have w6: "?msg \<in> set (w_log w6)" "?put \<in> set (w_log w6)"
        using get_model_response_log [OF Some] rw w5 by auto
      show ?thesis
      proof (cases r6)
        case (Inl e)
        with run Inr Some rw w6 show ?thesis by simp
      next
        case (Inr b)
        obtain r7 w7 where assembled: "main_assemble env ?path w6 = (r7, w7)"
          by (cases "main_assemble env ?path w6")
        have w7: "?msg \<in> set (w_log w7)" "?put \<in> set (w_log w7)"
          using main_assemble_log [of w6 env ?path] assembled w6 by auto
        have "?msg \<in> set (w_log (play_video ?path u w7))" "?put \<in> set (w_log (play_video ?path u w7))"
          using play_video_log [of w7 ?path u] w7 by auto
        with run \<open>res = Inr response_location\<close> Some rw Inr assembled w7 show ?thesis
          by (cases r7) simp_all
      qed
    qed
  qed
qed

theorem oversized_upload_witness:
  "ui_upload oversized_ui = Some \<lparr>up_name = ''big.png'', up_size = MAX_FILE_SIZE + 1\<rparr> \<and>
   MAX_FILE_SIZE < up_size \<lparr>up_name = ''big.png'', up_size = MAX_FILE_SIZE + 1\<rparr> \<and>
   ui_create_video oversized_ui \<and>
   main (stub_env (not_found_then_content 0) ''raw'' (Returns sample_response))
     oversized_ui empty_world \<noteq> None \<and>
   (case main (stub_env (not_found_then_content 0) ''raw'' (Returns sample_response))
           oversized_ui empty_world of
      Some (r, w') \<Rightarrow>
        StError ''The uploaded file is too large. Please upload an image smaller than 5MB.''
          \<in> set (w_log w') \<and>
        S3UploadFile REQUEST_PAYLOAD S3_BUCKET ''async_inference/input/payload.json''
          \<in> set (w_log w')
    | None \<Rightarrow> False)"
proof -
  let ?env = "stub_env (not_found_then_content 0) ''raw'' (Returns sample_response)"
  let ?up = "\<lparr>up_name = ''big.png'', up_size = MAX_FILE_SIZE + 1\<rparr>"
  let ?img = "\<lparr>img_width = 512, img_height = 512\<rparr>"
  have h1: "ui_upload oversized_ui = Some ?up"
    by (simp add: oversized_ui_def MAX_FILE_SIZE_def)
  have h2: "MAX_FILE_SIZE < up_size ?up" by simp
  have h3: "ui_create_video oversized_ui"
    by (simp add: oversized_ui_def)
  have h4: "image_open ?env (Some ?up) = Returns ?img"
    by (simp add: stub_env_def)
  have h5: "encode_image ?env ?img = Returns ''/9j/''"
    by (simp add: encode_image_def stub_env_def)
  have returns: "main ?env oversized_ui empty_world \<noteq> None"
  proof
    assume "main ?env oversized_ui empty_world = None"
    then obtain response_location w5 where "get_model_response ?env response_location w5 = None"
      by (auto simp add: main_def Let_def split: prod.splits sum.splits option.splits if_splits)
    with stub_poll_returns show False by blast
  qed
  show ?thesis
    using h1 h2 h3 returns
      oversized_upload_is_still_submitted [OF h1 h2 h3 h4 h5, of empty_world]
    by (auto split: option.splits)
qed

section \<open>The guidance scales in the submitted request\<close>

lemma number_inputs_files: "w_files (foldl (number_input_step u) w inputs) = w_files w"
  by (induction inputs arbitrary: w) (simp_all add: number_input_step_def ss_set_def split: prod.splits)

lemma main_numbers_files: "w_files (main_numbers u w) = w_files w"
  by (simp add: main_numbers_def number_inputs_files)

lemma invoke_model_after_main_numbers:
  assumes "image_open env upload = Returns img"
    and "encode_image env img = Returns encoded"
    and "data = (''image'', PStr encoded)
                 # map (\<lambda>(label, key, dflt). (key, st_number_input u label (ss_get w key dflt)))
                     number_inputs"
    and "s3_upload_file env S3_BUCKET ''async_inference/input/payload.json''
           (Some (json_dumps env (PDict data))) = Returns ()"
    and "invoke_endpoint_async env ENDPOINT_NAME
           (''s3://'' @ S3_BUCKET @ ''/async_inference/input/payload.json'') 3600
           = Returns response_location"
  shows "invoke_model env upload (main_numbers u w) =
     (Inr response_location,
      (main_numbers u w)
        \<lparr>w_files := AList.update REQUEST_PAYLOAD (json_dumps env (PDict data)) (w_files w),
         w_log := w_log w
           @ [S3UploadFile REQUEST_PAYLOAD S3_BUCKET ''async_inference/input/payload.json'',
              InvokeEndpointAsync ENDPOINT_NAME
                (''s3://'' @ S3_BUCKET @ ''/async_inference/input/payload.json'') 3600]\<rparr>)"
proof -
  have built: "request_data env img (main_numbers u w) = Inr data"
    using request_data_after_main_numbers [OF assms(2)] assms(3) by simp
  show ?thesis
    using assms(1,4,5) built
    by (simp add: invoke_model_def upload_file_def write_file_def emit_def Let_def
        main_numbers_files main_numbers_log update_conv')
qed

lemma main_create_video:
  assumes "ui_create_video u"
    and "main_upload env u (reset_session_states w0) = (Inr (), w2)"
    and "invoke_model env (ui_upload u) (main_numbers u (main_title u w2))
           = (Inr response_location, w5)"
  shows "main env u w0 =
     (case get_model_response env response_location w5 of
        None \<Rightarrow> None
      | Some (Inl e, w6) \<Rightarrow> Some (Inl e, w6)
      | Some (Inr b, w6) \<Rightarrow>
          (case main_assemble env (main_video_path env (main_title u w2)) w6 of
             (Inl e, w7) \<Rightarrow> Some (Inl e, w7)
           | (Inr v, w7) \<Rightarrow>
               Some (Inr (), play_video (main_video_path env (main_title u w2)) u w7)))"
  using assms by (simp add: main_def Let_def)

lemma main_log_after_submission:
  assumes "ui_create_video u"
    and "main_upload env u (reset_session_states w0) = (Inr (), w2)"
    and "invoke_model env (ui_upload u) (main_numbers u (main_title u w2))
           = (Inr response_location, w5)"
    and "main env u w0 = Some (r, w')"
  shows "set (w_log w5) \<subseteq> set (w_log w')"
proof (cases "get_model_response env response_location w5")
  case None
  with main_create_video [OF assms(1-3)] assms(4) show ?thesis by simp
next
  case (Some rw)
  obtain r6 w6 where rw: "rw = (r6, w6)" by (cases rw)
  have w6: "set (w_log w5) \<subseteq> set (w_log w6)"
    using get_model_response_log [OF Some] rw by simp
  show ?thesis
  proof (cases r6)
    case (Inl e)
    with main_create_video [OF assms(1-3)] assms(4) Some rw w6 show ?thesis by simp
  next
    case (Inr b)
    let ?path = "main_video_path env (main_title u w2)"
    obtain r7 w7 where assembled: "main_assemble env ?path w6 = (r7, w7)"
      by (cases "main_assemble env ?path w6")
    have w7: "set (w_log w6) \<subseteq> set (w_log w7)"
      using main_assemble_log [of w6 env ?path] assembled by simp
    have played: "set (w_log w7) \<subseteq> set (w_log (play_video ?path u w7))"
      by (rule play_video_log)
    from main_create_video [OF assms(1-3)] assms(4) Some rw Inr assembled
    have "w' = w7 \<or> w' = play_video ?path u w7"
      by (cases r7) auto
    with w6 w7 played show ?thesis by auto
  qed
qed

text \<open>
  Claim C9, as amended.  After the number inputs of a run, \<^verbatim>\<open>invoke_model\<close> builds the payload
  from the values of those inputs (the number typed, or the value the widget was given when
  nothing was typed), writes it to \<open>REQUEST_PAYLOAD\<close>, uploads that file and submits the
  job, and \<^verbatim>\<open>main\<close> goes on to poll for the result: whenever the image opens and encodes and
  the two services answer, this happens whatever the two guidance-scale inputs are.  The
  payload's \<^verbatim>\<open>min_guidance_scale\<close> and \<^verbatim>\<open>max_guidance_scale\<close> are the values of the two inputs,
  and the submitted payload has minimum at most maximum exactly when these two values have.
\<close>

theorem guidance_scales_are_submitted_unchecked:
  assumes "image_open env (ui_upload u) = Returns img"
    and "encode_image env img = Returns encoded"
    and "data = (''image'', PStr encoded)
                 # map (\<lambda>(label, key, dflt). (key, st_number_input u label (ss_get w key dflt)))
                     number_inputs"
    and "s3_upload_file env S3_BUCKET ''async_inference/input/payload.json''
           (Some (json_dumps env (PDict data))) = Returns ()"
    and "invoke_endpoint_async env ENDPOINT_NAME
           (''s3://'' @ S3_BUCKET @ ''/async_inference/input/payload.json'') 3600
           = Returns response_location"
    and "w5 = (main_numbers u w)
        \<lparr>w_files := AList.update REQUEST_PAYLOAD (json_dumps env (PDict data)) (w_files w),
         w_log := w_log w
           @ [S3UploadFile REQUEST_PAYLOAD S3_BUCKET ''async_inference/input/payload.json'',
              InvokeEndpointAsync ENDPOINT_NAME
                (''s3://'' @ S3_BUCKET @ ''/async_inference/input/payload.json'') 3600]\<rparr>"
  shows "invoke_model env (ui_upload u) (main_numbers u w) = (Inr response_location, w5) \<and>
         map_of data ''min_guidance_scale''
           = Some (st_number_input u ''Minimum Guidance Scale''
                     (ss_get w ''min_guidance_scale'' (PNum (FloatNum 1)))) \<and>
         map_of data ''max_guidance_scale''
           = Some (st_number_input u ''Maximum Guidance Scale''
                     (ss_get w ''max_guidance_scale'' (PNum (FloatNum 3)))) \<and>
         guidance_scales_ordered data
           = guidance_scales_ordered
               [(''min_guidance_scale'', st_number_input u ''Minimum Guidance Scale''
                     (ss_get w ''min_guidance_scale'' (PNum (FloatNum 1)))),
                (''max_guidance_scale'', st_number_input u ''Maximum Guidance Scale''
                     (ss_get w ''max_guidance_scale'' (PNum (FloatNum 3))))] \<and>
         (\<forall>w0 w2.
            ui_create_video u \<and>
            main_upload env u (reset_session_states w0) = (Inr (), w2) \<and>
            w = main_title u w2 \<longrightarrow>
            main env u w0 =
              (case get_model_response env response_location w5 of
                 None \<Rightarrow> None
               | Some (Inl e, w6) \<Rightarrow> Some (Inl e, w6)
               | Some (Inr b, w6) \<Rightarrow>
                   (case main_assemble env (main_video_path env w) w6 of
                      (Inl e, w7) \<Rightarrow> Some (Inl e, w7)
                    | (Inr v, w7) \<Rightarrow>
                        Some (Inr (), play_video (main_video_path env w) u w7))))"
proof -
  have submitted: "invoke_model env (ui_upload u) (main_numbers u w) = (Inr response_location, w5)"
    using invoke_model_after_main_numbers [OF assms(1-5)] assms(6) by simp
  have fields:
    "map_of data ''min_guidance_scale''
       = Some (st_number_input u ''Minimum Guidance Scale''
                 (ss_get w ''min_guidance_scale'' (PNum (FloatNum 1))))"
    "map_of data ''max_guidance_scale''
       = Some (st_number_input u ''Maximum Guidance Scale''
                 (ss_get w ''max_guidance_scale'' (PNum (FloatNum 3))))"
    using assms(3) by (simp_all add: number_inputs_def)
  have ordered: "guidance_scales_ordered data
           = guidance_scales_ordered
               [(''min_guidance_scale'', st_number_input u ''Minimum Guidance Scale''
                     (ss_get w ''min_guidance_scale'' (PNum (FloatNum 1)))),
                (''max_guidance_scale'', st_number_input u ''Maximum Guidance Scale''
                     (ss_get w ''max_guidance_scale'' (PNum (FloatNum 3))))]"
    using fields by (simp add: guidance_scales_ordered_def)
  have run: "\<forall>w0 w2.
            ui_create_video u \<and>
            main_upload env u (reset_session_states w0) = (Inr (), w2) \<and>
            w = main_title u w2 \<longrightarrow>
            main env u w0 =
              (case get_model_response env response_location w5 of
                 None \<Rightarrow> None
               | Some (Inl e, w6) \<Rightarrow> Some (Inl e, w6)
               | Some (Inr b, w6) \<Rightarrow>
                   (case main_assemble env (main_video_path env w) w6 of
                      (Inl e, w7) \<Rightarrow> Some (Inl e, w7)
                    | (Inr v, w7) \<Rightarrow>
                        Some (Inr (), play_video (main_video_path env w) u w7)))"
    using main_create_video submitted by blast
  show ?thesis
    by (intro conjI submitted fields ordered run)
qed

theorem guidance_scales_submitted_witness:
  "image_open (stub_env (not_found_then_content 0) ''raw'' (Returns sample_response))
     (ui_upload plain_ui) = Returns \<lparr>img_width = 512, img_height = 512\<rparr> \<and>
   encode_image (stub_env (not_found_then_content 0) ''raw'' (Returns sample_response))
     \<lparr>img_width = 512, img_height = 512\<rparr> = Returns ''/9j/'' \<and>
   invoke_endpoint_async (stub_env (not_found_then_content 0) ''raw'' (Returns sample_response))
     ENDPOINT_NAME (''s3://'' @ S3_BUCKET @ ''/async_inference/input/payload.json'') 3600
     = Returns ''s3://bucket/async_inference/output/out.json'' \<and>
   (case invoke_model (stub_env (not_found_then_content 0) ''raw'' (Returns sample_response))
           (ui_upload plain_ui) (main_numbers plain_ui empty_world) of
      (r, w5) \<Rightarrow>
        r = Inr ''s3://bucket/async_inference/output/out.json'' \<and>
        w_log w5 =
          [S3UploadFile REQUEST_PAYLOAD S3_BUCKET ''async_inference/input/payload.json'',
           InvokeEndpointAsync ENDPOINT_NAME
             (''s3://'' @ S3_BUCKET @ ''/async_inference/input/payload.json'') 3600]) \<and>
   (case request_data (stub_env (not_found_then_content 0) ''raw'' (Returns sample_response))
           \<lparr>img_width = 512, img_height = 512\<rparr> (main_numbers plain_ui empty_world) of
      Inl e \<Rightarrow> False
    | Inr data \<Rightarrow>
        map_of data ''min_guidance_scale'' = Some (PNum (FloatNum 1)) \<and>
        map_of data ''max_guidance_scale'' = Some (PNum (FloatNum 3)) \<and>
        guidance_scales_ordered data)"
proof -
  let ?env = "stub_env (not_found_then_content 0) ''raw'' (Returns sample_response)"
  let ?img = "\<lparr>img_width = 512, img_height = 512\<rparr>"
  let ?data = "(''image'', PStr ''/9j/'')
       # map (\<lambda>(label, key, dflt). (key, st_number_input plain_ui label (ss_get empty_world key dflt)))
           number_inputs"
  have h1: "image_open ?env (ui_upload plain_ui) = Returns ?img"
    by (simp add: stub_env_def plain_ui_def)
  have h2: "encode_image ?env ?img = Returns ''/9j/''"
    by (simp add: encode_image_def stub_env_def)
  have h4: "s3_upload_file ?env S3_BUCKET ''async_inference/input/payload.json''
              (Some (json_dumps ?env (PDict ?data))) = Returns ()"
    by (simp add: stub_env_def)
  have h5: "invoke_endpoint_async ?env ENDPOINT_NAME
              (''s3://'' @ S3_BUCKET @ ''/async_inference/input/payload.json'') 3600
            = Returns ''s3://bucket/async_inference/output/out.json''"
    by (simp add: stub_env_def)
  have built: "request_data ?env ?img (main_numbers plain_ui empty_world) = Inr ?data"
    by (rule request_data_after_main_numbers [OF h2])
  have typed: "st_number_input plain_ui label val = val" for label val
    by (simp add: st_number_input_def plain_ui_def)
  have fresh: "ss_get empty_world key dflt = dflt" for key dflt
    by (simp add: ss_get_def empty_world_def)
  let ?put = "S3UploadFile REQUEST_PAYLOAD S3_BUCKET ''async_inference/input/payload.json''"
  let ?call = "InvokeEndpointAsync ENDPOINT_NAME
     (''s3://'' @ S3_BUCKET @ ''/async_inference/input/payload.json'') 3600"
  let ?w5 = "(main_numbers plain_ui empty_world)
        \<lparr>w_files := AList.update REQUEST_PAYLOAD (json_dumps ?env (PDict ?data)) (w_files empty_world),
         w_log := w_log empty_world @ [?put, ?call]\<rparr>"
  note inst = guidance_scales_are_submitted_unchecked [OF h1 h2 refl h4 h5 refl]
  have submitted: "invoke_model ?env (ui_upload plain_ui) (main_numbers plain_ui empty_world)
      = (Inr ''s3://bucket/async_inference/output/out.json'', ?w5)"
    using inst by (rule conjunct1)
  have lo: "map_of ?data ''min_guidance_scale'' = Some (PNum (FloatNum 1))"
    using inst by (simp only: typed fresh)
  have hi: "map_of ?data ''max_guidance_scale'' = Some (PNum (FloatNum 3))"
    using inst by (simp only: typed fresh)
  have ordered: "guidance_scales_ordered ?data"
    using lo hi by (simp add: guidance_scales_ordered_def num_le_def)
  have log: "w_log ?w5 = [?put, ?call]"
    by (simp add: empty_world_def)
  have stage: "case invoke_model ?env (ui_upload plain_ui) (main_numbers plain_ui empty_world) of
      (r, w5) \<Rightarrow>
        r = Inr ''s3://bucket/async_inference/output/out.json'' \<and> w_log w5 = [?put, ?call]"
    unfolding submitted prod.case using log by simp
  have payload: "case request_data ?env ?img (main_numbers plain_ui empty_world) of
      Inl e \<Rightarrow> False
    | Inr data \<Rightarrow>
        map_of data ''min_guidance_scale'' = Some (PNum (FloatNum 1)) \<and>
        map_of data ''max_guidance_scale'' = Some (PNum (FloatNum 3)) \<and>
        guidance_scales_ordered data"
    unfolding built sum.case by (intro conjI lo hi ordered)
  show ?thesis
    by (intro conjI h1 h2 h5 stage payload)
qed

text \<open>
  Claim C9 as stated (every payload constructed and submitted has minimum at most maximum)
  fails for the run in which 5.0 is typed as minimum and 3.0 as maximum guidance scale: the
  payload built in that run carries 5.0 and 3.0, \<^verbatim>\<open>invoke_model\<close> writes it to
  \<open>REQUEST_PAYLOAD\<close>, uploads it and submits the job, and the run of \<^verbatim>\<open>main\<close> returns with
  the upload and the submission in its log.
\<close>

theorem inverted_scales_are_submitted_counterexample:
  "case request_data (stub_env (not_found_then_content 0) ''raw'' (Returns sample_response))
          \<lparr>img_width = 512, img_height = 512\<rparr>
          (main_numbers inverted_scales_ui
             (main_title inverted_scales_ui
                (snd (main_upload (stub_env (not_found_then_content 0) ''raw'' (Returns sample_response))
                        inverted_scales_ui (reset_session_states empty_world))))) of
     Inl e \<Rightarrow> False
   | Inr data \<Rightarrow>
       map_of data ''min_guidance_scale'' = Some (PNum (FloatNum 5)) \<and>
       map_of data ''max_guidance_scale'' = Some (PNum (FloatNum 3)) \<and>
       \<not> guidance_scales_ordered data \<and>
       (case invoke_model (stub_env (not_found_then_content 0) ''raw'' (Returns sample_response))
               (ui_upload inverted_scales_ui)
               (main_numbers inverted_scales_ui
                  (main_title inverted_scales_ui
                     (snd (main_upload
                             (stub_env (not_found_then_content 0) ''raw'' (Returns sample_response))
                             inverted_scales_ui (reset_session_states empty_world))))) of
          (r, w5) \<Rightarrow>
            r = Inr ''s3://bucket/async_inference/output/out.json'' \<and>
            map_of (w_files w5) REQUEST_PAYLOAD
              = Some (json_dumps (stub_env (not_found_then_content 0) ''raw'' (Returns sample_response))
                        (PDict data)) \<and>
            S3UploadFile REQUEST_PAYLOAD S3_BUCKET ''async_inference/input/payload.json''
              \<in> set (w_log w5) \<and>
            InvokeEndpointAsync ENDPOINT_NAME
              (''s3://'' @ S3_BUCKET @ ''/async_inference/input/payload.json'') 3600
              \<in> set (w_log w5)) \<and>
       (case main (stub_env (not_found_then_content 0) ''raw'' (Returns sample_response))
               inverted_scales_ui empty_world of
          None \<Rightarrow> False
        | Some (r, w') \<Rightarrow>
            S3UploadFile REQUEST_PAYLOAD S3_BUCKET ''async_inference/input/payload.json''
              \<in> set (w_log w') \<and>
            InvokeEndpointAsync ENDPOINT_NAME
              (''s3://'' @ S3_BUCKET @ ''/async_inference/input/payload.json'') 3600
              \<in> set (w_log w'))"
proof -
  let ?env = "stub_env (not_found_then_content 0) ''raw'' (Returns sample_response)"
  let ?u = inverted_scales_ui
  let ?img = "\<lparr>img_width = 512, img_height = 512\<rparr>"
  let ?loc = "''s3://bucket/async_inference/output/out.json''"
  let ?w2 = "snd (main_upload ?env ?u (reset_session_states empty_world))"
  let ?w3 = "main_title ?u ?w2"
  let ?data = "(''image'', PStr ''/9j/'')
       # map (\<lambda>(label, key, dflt). (key, st_number_input ?u label (ss_get ?w3 key dflt)))
           number_inputs"
  let ?put = "S3UploadFile REQUEST_PAYLOAD S3_BUCKET ''async_inference/input/payload.json''"
  let ?call = "InvokeEndpointAsync ENDPOINT_NAME
     (''s3://'' @ S3_BUCKET @ ''/async_inference/input/payload.json'') 3600"
  let ?w5 = "(main_numbers ?u ?w3)
        \<lparr>w_files := AList.update REQUEST_PAYLOAD (json_dumps ?env (PDict ?data)) (w_files ?w3),
         w_log := w_log ?w3 @ [?put, ?call]\<rparr>"
  have create: "ui_create_video ?u"
    by (simp add: inverted_scales_ui_def)
  have h1: "image_open ?env (ui_upload ?u) = Returns ?img"
    by (simp add: stub_env_def inverted_scales_ui_def)
  have h2: "encode_image ?env ?img = Returns ''/9j/''"
    by (simp add: encode_image_def stub_env_def)
  have h4: "s3_upload_file ?env S3_BUCKET ''async_inference/input/payload.json''
              (Some (json_dumps ?env (PDict ?data))) = Returns ()"
    by (simp add: stub_env_def)
  have h5: "invoke_endpoint_async ?env ENDPOINT_NAME
              (''s3://'' @ S3_BUCKET @ ''/async_inference/input/payload.json'') 3600 = Returns ?loc"
    by (simp add: stub_env_def)
  have built: "request_data ?env ?img (main_numbers ?u ?w3) = Inr ?data"
    by (rule request_data_after_main_numbers [OF h2])
  have submitted: "invoke_model ?env (ui_upload ?u) (main_numbers ?u ?w3) = (Inr ?loc, ?w5)"
    by (rule invoke_model_after_main_numbers [OF h1 h2 refl h4 h5])
  have scales:
    "map_of ?data ''min_guidance_scale'' = Some (PNum (FloatNum 5))"
    "map_of ?data ''max_guidance_scale'' = Some (PNum (FloatNum 3))"
    by (simp_all add: number_inputs_def st_number_input_def inverted_scales_ui_def)
  then have inverted: "\<not> guidance_scales_ordered ?data"
    by (simp add: guidance_scales_ordered_def num_le_def)
  have uploaded: "fst (main_upload ?env ?u (reset_session_states empty_world)) = Inr ()"
    by (simp add: main_upload_def inverted_scales_ui_def stub_env_def MAX_FILE_SIZE_def Let_def)
  then have prepared: "main_upload ?env ?u (reset_session_states empty_world) = (Inr (), ?w2)"
    by (metis prod.collapse)
  have returns: "main ?env ?u empty_world \<noteq> None"
    using main_create_video [OF create prepared submitted]
      stub_poll_returns [of "''raw''" "Returns sample_response" ?loc ?w5]
    by (auto split: option.splits sum.splits prod.splits)
  have run: "case main ?env ?u empty_world of
          None \<Rightarrow> False
        | Some (r, w') \<Rightarrow> ?put \<in> set (w_log w') \<and> ?call \<in> set (w_log w')"
  proof (cases "main ?env ?u empty_world")
    case None
    with returns show ?thesis by simp
  next
    case (Some rw)
    obtain r w' where rw: "rw = (r, w')" by (cases rw)
    have "set (w_log ?w5) \<subseteq> set (w_log w')"
      using main_log_after_submission [OF create prepared submitted] Some rw by simp
    then have "?put \<in> set (w_log w')" and "?call \<in> set (w_log w')"
      by auto
    with Some rw show ?thesis by simp
  qed
  have stage: "case invoke_model ?env (ui_upload ?u) (main_numbers ?u ?w3) of
          (r, w5) \<Rightarrow>
            r = Inr ?loc \<and>
            map_of (w_files w5) REQUEST_PAYLOAD = Some (json_dumps ?env (PDict ?data)) \<and>
            ?put \<in> set (w_log w5) \<and> ?call \<in> set (w_log w5)"
    unfolding submitted prod.case by (simp add: update_conv')
  show ?thesis
    unfolding built sum.case
    by (intro conjI scales inverted stage run)
qed

end
